theory Spec2Isabelle
  imports Complex_Main
begin

section \<open>Arrays\<close>

text \<open>
  The colorizer works on numpy arrays. An array is modelled by its shape and its element
  lookup; only the elements at indices inside the shape are meaningful. Floating-point
  numbers are idealised as reals, so rounding, NaN and the sign of a zero are outside the model.
\<close>

record ndarray =
  shape :: "nat list"
  elems :: "nat list \<Rightarrow> real"

datatype error =
    DimError            \<comment> \<open>the exceptions raised by \<open>_checkDims\<close>\<close>
  | MixedDimError       \<comment> \<open>the bare exception raised by \<open>_checkMixedDims\<close>\<close>
  | NotUnderstood       \<comment> \<open>\<open>Colorization method not understood\<close>\<close>
  | InvalidInput        \<comment> \<open>\<open>Input array must be two-dimensional\<close>\<close>
  | IndexError
  | TypeError
  | ValueError
  | UnboundLocalError
  | LibraryError        \<comment> \<open>an exception raised inside an external library call\<close>

definition bindE :: "error + 'a \<Rightarrow> ('a \<Rightarrow> error + 'b) \<Rightarrow> error + 'b" where
  "bindE m f = (case m of Inl e \<Rightarrow> Inl e | Inr x \<Rightarrow> f x)"

definition ndim :: "ndarray \<Rightarrow> nat" where
  "ndim a = length (shape a)"

definition asize :: "ndarray \<Rightarrow> nat" where
  "asize a = prod_list (shape a)"

definition in_shape :: "nat list \<Rightarrow> nat list \<Rightarrow> bool" where
  "in_shape s ix = list_all2 (<) ix s"

definition indices :: "nat list \<Rightarrow> nat list list" where
  "indices s = product_lists (map (\<lambda>n. [0..<n]) s)"

definition values_nd :: "ndarray \<Rightarrow> real list" where
  "values_nd a = map (elems a) (indices (shape a))"

definition amin :: "ndarray \<Rightarrow> real" where
  "amin a = Min (set (values_nd a))"

definition amax :: "ndarray \<Rightarrow> real" where
  "amax a = Max (set (values_nd a))"

definition map_nd :: "(real \<Rightarrow> real) \<Rightarrow> ndarray \<Rightarrow> ndarray" where
  "map_nd f a = a\<lparr>elems := (\<lambda>ix. f (elems a ix))\<rparr>"

text \<open>An elementwise binary operation on two arrays of one shape (\<open>maximum\<close>, \<open>+\<close>, \<open>**\<close>).\<close>

definition zip_nd :: "(real \<Rightarrow> real \<Rightarrow> real) \<Rightarrow> ndarray \<Rightarrow> ndarray \<Rightarrow> ndarray" where
  "zip_nd f a b = \<lparr>shape = shape a, elems = (\<lambda>ix. f (elems a ix) (elems b ix))\<rparr>"

definition clip :: "real \<Rightarrow> real \<Rightarrow> real \<Rightarrow> real" where
  "clip x lo hi = min hi (max lo x)"

definition zeros :: "nat list \<Rightarrow> ndarray" where
  "zeros s = \<lparr>shape = s, elems = (\<lambda>ix. 0)\<rparr>"

definition ones :: "nat list \<Rightarrow> ndarray" where
  "ones s = \<lparr>shape = s, elems = (\<lambda>ix. 1)\<rparr>"

text \<open>\<open>a[k]\<close>: the sub-array at position \<open>k\<close> of the first axis.\<close>

definition sub0 :: "ndarray \<Rightarrow> nat \<Rightarrow> ndarray" where
  "sub0 a k = \<lparr>shape = tl (shape a), elems = (\<lambda>ix. elems a (k # ix))\<rparr>"

text \<open>\<open>a[:, :, i]\<close> on a three-dimensional array.\<close>

definition getz :: "ndarray \<Rightarrow> nat \<Rightarrow> ndarray" where
  "getz a i = \<lparr>shape = butlast (shape a), elems = (\<lambda>ix. elems a (ix @ [i]))\<rparr>"

text \<open>\<open>out[:, :, i, :] = v\<close> on a four-dimensional array \<open>out\<close>.\<close>

definition setz :: "ndarray \<Rightarrow> nat \<Rightarrow> ndarray \<Rightarrow> ndarray" where
  "setz out i v =
     out\<lparr>elems := (\<lambda>ix. if ix ! 2 = i then elems v [ix ! 0, ix ! 1, ix ! 3] else elems out ix)\<rparr>"

definition index_of :: "nat \<Rightarrow> nat list \<Rightarrow> nat" where
  "index_of k perm = length (takeWhile (\<lambda>p. p \<noteq> k) perm)"

text \<open>\<open>transpose(a, perm)\<close>: axis \<open>i\<close> of the result is axis \<open>perm[i]\<close> of \<open>a\<close>.\<close>

definition transpose_nd :: "ndarray \<Rightarrow> nat list \<Rightarrow> ndarray" where
  "transpose_nd a perm =
     \<lparr>shape = map (\<lambda>k. shape a ! k) perm,
      elems = (\<lambda>ix. elems a (map (\<lambda>k. ix ! index_of k perm) [0..<length perm]))\<rparr>"

text \<open>\<open>dstack\<close> of two-dimensional arrays of one shape: a new trailing axis.\<close>

definition dstack :: "ndarray list \<Rightarrow> ndarray" where
  "dstack as = \<lparr>shape = shape (hd as) @ [length as],
                elems = (\<lambda>ix. elems (as ! last ix) (butlast ix))\<rparr>"

type_synonym rgb = "real \<times> real \<times> real"
type_synonym rgba = "real \<times> real \<times> real \<times> real"
type_synonym colormap = "real \<Rightarrow> rgba"

fun comp3 :: "rgb \<Rightarrow> nat \<Rightarrow> real" where
  "comp3 (r, g, b) k = (if k = 0 then r else if k = 1 then g else b)"

fun comp4 :: "rgba \<Rightarrow> nat \<Rightarrow> real" where
  "comp4 (r, g, b, a) k = (if k = 0 then r else if k = 1 then g else if k = 2 then b else a)"

text \<open>A pixelwise conversion applied along the trailing axis of size 3 (\<open>hsv_to_rgb\<close>).\<close>

definition along_last :: "(rgb \<Rightarrow> rgb) \<Rightarrow> ndarray \<Rightarrow> ndarray" where
  "along_last f a =
     \<lparr>shape = shape a,
      elems = (\<lambda>ix. comp3 (f (elems a (butlast ix @ [0]), elems a (butlast ix @ [1]),
                                 elems a (butlast ix @ [2]))) (last ix))\<rparr>"

text \<open>Calling a colormap on an array: every element becomes an RGBA quadruple on a new
  trailing axis of size 4.\<close>

definition apply_cmap :: "colormap \<Rightarrow> ndarray \<Rightarrow> ndarray" where
  "apply_cmap f a = \<lparr>shape = shape a @ [4], elems = (\<lambda>ix. comp4 (f (elems a (butlast ix))) (last ix))\<rparr>"

text \<open>\<open>a[..., 0:3]\<close> with the slice on axis \<open>k\<close>.\<close>

definition slice03 :: "nat \<Rightarrow> ndarray \<Rightarrow> ndarray" where
  "slice03 k a = a\<lparr>shape := (shape a)[k := min 3 (shape a ! k)]\<rparr>"

section \<open>The Colorize class\<close>

text \<open>
  The value of the attribute \<open>cmap\<close>: a string (one of the four keywords or the name of
  a colormap), a \<open>ListedColormap\<close> object, a colormap object of another class (matplotlib's
  \<open>LinearSegmentedColormap\<close>), or any other object. A colormap object is modelled by its
  lookup function.
\<close>

datatype selector =
    Str string
  | ListedColormap colormap
  | LinearSegmentedColormap colormap
  | OtherObject

record colorize =
  cmap :: selector
  scale :: real
  colors :: "rgb list option"
  vmin :: "real option"
  vmax :: "real option"

text \<open>
  The external colour library, consumed as black boxes: the pixelwise HSV to RGB
  conversion, the black-to-colour ramp \<open>LinearSegmentedColormap.from_list('blend',
  [[0, 0, 0], clr])\<close> and the lookup of a colormap by name (\<open>None\<close> when the library
  raises for an unknown name).
\<close>

record lib =
  hsv_to_rgb :: "rgb \<Rightarrow> rgb"
  from_list :: "rgb \<Rightarrow> colormap"
  get_cmap :: "string \<Rightarrow> colormap option"

subsection \<open>Normalization\<close>

text \<open>
  Modelled from the spec: \<open>matplotlib.colors.Normalize\<close> is not part of the sources. It
  rescales linearly so that the minimum maps to 0 and the maximum to 1, clipping outside
  when \<open>clip\<close> is set; an unset bound defaults to the observed minimum or maximum of a
  non-empty array. Equal bounds give an array of zeros, and a minimum above the maximum is
  refused by the library.
\<close>

definition autoscale_None :: "real option \<Rightarrow> real option \<Rightarrow> ndarray \<Rightarrow> real option \<times> real option" where
  "autoscale_None lo hi a =
     ((case lo of None \<Rightarrow> (if asize a \<noteq> 0 then Some (amin a) else None) | Some v \<Rightarrow> Some v),
      (case hi of None \<Rightarrow> (if asize a \<noteq> 0 then Some (amax a) else None) | Some v \<Rightarrow> Some v))"

definition Normalize :: "real option \<Rightarrow> real option \<Rightarrow> bool \<Rightarrow> ndarray \<Rightarrow> error + ndarray" where
  "Normalize lo hi clp a =
     (case autoscale_None lo hi a of
        (None, None) \<Rightarrow> Inr (map_nd (\<lambda>x. 0) a)
      | (Some l, Some h) \<Rightarrow>
          if l = h then Inr (map_nd (\<lambda>x. 0) a)
          else if l > h then Inl ValueError
          else Inr (map_nd (\<lambda>x. ((if clp then clip x l h else x) - l) / (h - l)) a)
      | _ \<Rightarrow> Inl TypeError)"

subsection \<open>Dimension checks\<close>

definition conversions :: "string list" where
  "conversions = [''rgb'', ''hsv'', ''polar'', ''indexed'']"

text \<open>\<open>dims[0]\<close> of a shape tuple; the empty tuple raises.\<close>

definition dims0 :: "nat list \<Rightarrow> error + nat" where
  "dims0 dims = (case dims of [] \<Rightarrow> Inl IndexError | d # _ \<Rightarrow> Inr d)"

definition checkDims :: "colorize \<Rightarrow> nat list \<Rightarrow> error + unit" where
  "checkDims self dims =
     (case cmap self of
        Str s \<Rightarrow>
          if s \<in> set conversions then
            (if s \<in> set [''rgb'', ''hsv''] then
               bindE (dims0 dims) (\<lambda>d. if d \<noteq> 3 then Inl DimError else Inr ())
             else if s \<in> set [''polar''] then
               bindE (dims0 dims) (\<lambda>d. if d \<noteq> 2 then Inl DimError else Inr ())
             else
               bindE (dims0 dims) (\<lambda>d.
                 case colors self of
                   None \<Rightarrow> Inl TypeError
                 | Some cs \<Rightarrow> if d \<noteq> length cs then Inl DimError else Inr ()))
          else if length dims \<notin> set [2, 3] then Inl DimError else Inr ()
      | ListedColormap f \<Rightarrow> if length dims \<notin> set [2, 3] then Inl DimError else Inr ()
      | _ \<Rightarrow> Inr ())"

text \<open>
  \<open>allclose\<close> on two shape tuples, with numpy's broadcasting of one-element tuples and
  its default tolerances (\<open>rtol = 1e-5\<close>, \<open>atol = 1e-8\<close>); tuples that do not broadcast raise.
\<close>

definition isclose :: "nat \<Rightarrow> nat \<Rightarrow> bool" where
  "isclose a b = (\<bar>real a - real b\<bar> \<le> 1 / 10 ^ 8 + (1 / 10 ^ 5) * real b)"

definition allclose :: "nat list \<Rightarrow> nat list \<Rightarrow> error + bool" where
  "allclose d1 d2 =
     (if length d1 = length d2 then Inr (list_all2 isclose d1 d2)
      else if length d1 = 1 then Inr (list_all (isclose (hd d1)) d2)
      else if length d2 = 1 then Inr (list_all (\<lambda>a. isclose a (hd d2)) d1)
      else Inl ValueError)"

definition checkMixedDims :: "colorize \<Rightarrow> nat list \<Rightarrow> nat list \<Rightarrow> error + unit" where
  "checkMixedDims self dims1 dims2 =
     (case cmap self of
        Str s \<Rightarrow>
          if s \<in> set conversions then
            bindE (allclose dims1 (tl dims2)) (\<lambda>ok. if \<not> ok then Inl MixedDimError else Inr ())
          else bindE (allclose dims1 dims2) (\<lambda>ok. if \<not> ok then Inl MixedDimError else Inr ())
      | ListedColormap f \<Rightarrow>
          bindE (allclose dims1 dims2) (\<lambda>ok. if \<not> ok then Inl MixedDimError else Inr ())
      | _ \<Rightarrow> Inr ())"

subsection \<open>Mask and background preparation\<close>

definition prepareMask :: "ndarray \<Rightarrow> ndarray" where
  "prepareMask msk = map_nd (\<lambda>x. max 0 x) msk"

definition prepareBackground :: "ndarray \<Rightarrow> error + ndarray" where
  "prepareBackground background = Normalize None None False background"

subsection \<open>Blending\<close>

text \<open>
  One pass of the loop of \<open>blend\<close>: \<open>img[..., i] = op(img[..., i], mask)\<close> with the index
  \<open>i\<close> on axis \<open>k\<close>. The mask is broadcast against the slice as numpy does (shapes
  aligned at the right, an extent of 1 repeated), and the result must fit the slice.
\<close>

fun broadcastable :: "nat list \<Rightarrow> nat list \<Rightarrow> bool" where
  "broadcastable [] ss = True"
| "broadcastable (m # ms) [] = (m = 1 \<and> broadcastable ms [])"
| "broadcastable (m # ms) (s # ss) = ((m = s \<or> m = 1) \<and> broadcastable ms ss)"

fun bc_rev :: "nat list \<Rightarrow> nat list \<Rightarrow> nat list" where
  "bc_rev [] js = []"
| "bc_rev (m # ms) [] = 0 # bc_rev ms []"
| "bc_rev (m # ms) (j # js) = (if m = 1 then 0 else j) # bc_rev ms js"

definition bc_index :: "nat list \<Rightarrow> nat list \<Rightarrow> nat list" where
  "bc_index ms jx = rev (bc_rev (rev ms) (rev jx))"

definition remove_nth :: "nat \<Rightarrow> 'a list \<Rightarrow> 'a list" where
  "remove_nth k xs = take k xs @ drop (Suc k) xs"

definition blend_step :: "(real \<Rightarrow> real \<Rightarrow> real) \<Rightarrow> nat \<Rightarrow> ndarray \<Rightarrow> nat \<Rightarrow> ndarray \<Rightarrow> error + ndarray" where
  "blend_step op k msk i img =
     (if ndim img \<le> k then Inl IndexError
      else if shape img ! k \<le> i then Inl IndexError
      else if \<not> broadcastable (rev (shape msk)) (rev (remove_nth k (shape img))) then Inl ValueError
      else Inr (img\<lparr>elems := (\<lambda>ix. if ix ! k = i
                                    then op (elems img ix) (elems msk (bc_index (shape msk) (remove_nth k ix)))
                                    else elems img ix)\<rparr>))"

definition blend :: "ndarray \<Rightarrow> ndarray \<Rightarrow> (real \<Rightarrow> real \<Rightarrow> real) \<Rightarrow> error + ndarray" where
  "blend img msk op =
     (if ndim msk = 3
      then fold (\<lambda>i r. bindE r (blend_step op 3 msk i)) [0..<3] (Inr img)
      else fold (\<lambda>i r. bindE r (blend_step op 2 msk i)) [0..<3] (Inr img))"

subsection \<open>The conversions\<close>

text \<open>
  \<open>arctan2\<close> on the reals, and the remainder \<open>%\<close> of numpy, whose sign follows the
  divisor.
\<close>

definition arctan2 :: "real \<Rightarrow> real \<Rightarrow> real" where
  "arctan2 y x =
     (if 0 < x then arctan (y / x)
      else if x < 0 then (if 0 \<le> y then arctan (y / x) + pi else arctan (y / x) - pi)
      else if 0 < y then pi / 2
      else if y < 0 then - (pi / 2)
      else 0)"

definition pymod :: "real \<Rightarrow> real \<Rightarrow> real" where
  "pymod x m = x - m * of_int \<lfloor>x / m\<rfloor>"

definition rgb_out :: "ndarray \<Rightarrow> error + ndarray" where
  "rgb_out img =
     (if ndim img = 4 then Inr (transpose_nd img [1, 2, 3, 0])
      else if ndim img = 3 then Inr (transpose_nd img [1, 2, 0])
      else Inl UnboundLocalError)"

definition hsv_out :: "lib \<Rightarrow> nat list \<Rightarrow> ndarray \<Rightarrow> error + ndarray" where
  "hsv_out L dims img =
     (if ndim img = 4 then
        Inr (fold (\<lambda>i out. setz out i (along_last (hsv_to_rgb L)
                     (dstack [getz (sub0 img 0) i, getz (sub0 img 1) i, getz (sub0 img 2) i])))
               [0..<dims ! 3] (zeros [dims ! 1, dims ! 2, dims ! 3, 3]))
      else if ndim img = 3 then
        Inr (along_last (hsv_to_rgb L) (dstack [sub0 img 0, sub0 img 1, sub0 img 2]))
      else Inl UnboundLocalError)"

text \<open>The polar scheme computes, elementwise on the two channels, the hue \<open>theta\<close> and the
  magnitude \<open>rho\<close>.\<close>

definition hue :: "real \<Rightarrow> real \<Rightarrow> real" where
  "hue c0 c1 = pymod (arctan2 (- c0) (- c1) + pi / 2) (pi * 2) / (2 * pi)"

definition magnitude :: "real \<Rightarrow> real \<Rightarrow> real" where
  "magnitude c0 c1 = sqrt (c0 ^ 2 + c1 ^ 2)"

definition theta_of :: "ndarray \<Rightarrow> ndarray" where
  "theta_of img = zip_nd hue (sub0 img 0) (sub0 img 1)"

definition rho_of :: "ndarray \<Rightarrow> ndarray" where
  "rho_of img = zip_nd magnitude (sub0 img 0) (sub0 img 1)"

text \<open>The HSV array handed to the conversion by the polar scheme: for a three-dimensional
  image, and for slice \<open>i\<close> of a four-dimensional one.\<close>

definition polar_hsv :: "real \<Rightarrow> nat list \<Rightarrow> ndarray \<Rightarrow> ndarray" where
  "polar_hsv scl dims img =
     dstack [theta_of img, ones [dims ! 1, dims ! 2], map_nd (\<lambda>r. scl * r) (rho_of img)]"

definition polar_hsv_slice :: "real \<Rightarrow> nat list \<Rightarrow> ndarray \<Rightarrow> nat \<Rightarrow> ndarray" where
  "polar_hsv_slice scl dims img i =
     dstack [getz (theta_of img) i, ones [dims ! 1, dims ! 2],
             map_nd (\<lambda>r. scl * r) (getz (rho_of img) i)]"

definition polar_out :: "lib \<Rightarrow> real \<Rightarrow> nat list \<Rightarrow> ndarray \<Rightarrow> error + ndarray" where
  "polar_out L scl dims img =
     (if ndim img = 4 then
        Inr (fold (\<lambda>i out. setz out i (along_last (hsv_to_rgb L) (polar_hsv_slice scl dims img i)))
               [0..<dims ! 3] (zeros [dims ! 1, dims ! 2, dims ! 3, 3]))
      else if ndim img = 3 then Inr (along_last (hsv_to_rgb L) (polar_hsv scl dims img))
      else Inl UnboundLocalError)"

definition indexed_step :: "lib \<Rightarrow> ndarray \<Rightarrow> nat \<times> rgb \<Rightarrow> ndarray \<Rightarrow> ndarray" where
  "indexed_step L img = (\<lambda>(ix, clr) out.
     let cm = from_list L clr;
         tmp = apply_cmap cm (sub0 img ix);
         tmp = (if ndim img = 4 then slice03 3 tmp else if ndim img = 3 then slice03 2 tmp else tmp)
     in zip_nd max out (map_nd (\<lambda>x. clip x 0 1) tmp))"

definition indexed_out :: "lib \<Rightarrow> rgb list option \<Rightarrow> nat list \<Rightarrow> ndarray \<Rightarrow> error + ndarray" where
  "indexed_out L clrs dims img =
     (case clrs of
        None \<Rightarrow> Inl TypeError
      | Some cs \<Rightarrow>
          if ndim img = 4 then
            Inr (fold (indexed_step L img) (enumerate 0 cs) (zeros [dims ! 1, dims ! 2, dims ! 3, 3]))
          else if ndim img = 3 then
            Inr (fold (indexed_step L img) (enumerate 0 cs) (zeros [dims ! 1, dims ! 2, 3]))
          else Inl UnboundLocalError)"

definition listed_out :: "colormap \<Rightarrow> ndarray \<Rightarrow> error + ndarray" where
  "listed_out f img =
     (if ndim img = 3 then Inr (slice03 3 (apply_cmap f img))
      else if ndim img = 2 then Inr (slice03 2 (apply_cmap f img))
      else Inl UnboundLocalError)"

definition named_out :: "lib \<Rightarrow> string \<Rightarrow> ndarray \<Rightarrow> error + ndarray" where
  "named_out L s img =
     (case get_cmap L s of
        None \<Rightarrow> Inl LibraryError
      | Some f \<Rightarrow>
          let out = apply_cmap f img
          in Inr (if ndim img = 3 then slice03 3 out else if ndim img = 2 then slice03 2 out else out))"

subsection \<open>transform\<close>

text \<open>The chain of branches on \<open>self.cmap\<close>, which binds \<open>out\<close> or raises.\<close>

definition dispatch :: "lib \<Rightarrow> colorize \<Rightarrow> nat list \<Rightarrow> ndarray \<Rightarrow> error + ndarray" where
  "dispatch L self dims img =
     (case cmap self of
        Str s \<Rightarrow>
          if s = ''rgb'' then rgb_out img
          else if s = ''hsv'' then hsv_out L dims img
          else if s = ''polar'' then polar_out L (scale self) dims img
          else if s = ''indexed'' then indexed_out L (colors self) dims img
          else named_out L s img
      | ListedColormap f \<Rightarrow> listed_out f img
      | _ \<Rightarrow> Inl NotUnderstood)"

definition transform :: "lib \<Rightarrow> colorize \<Rightarrow> ndarray \<Rightarrow> ndarray option \<Rightarrow> ndarray option \<Rightarrow> error + ndarray" where
  "transform L self img msk background =
     (let dims = shape img in
      bindE (checkDims self dims) (\<lambda>_.
      bindE (Normalize (vmin self) (vmax self) True img) (\<lambda>img.
      bindE (case msk of
               None \<Rightarrow> Inr None
             | Some m \<Rightarrow> (let m = prepareMask m
                          in bindE (checkMixedDims self (shape m) dims) (\<lambda>_. Inr (Some m)))) (\<lambda>msk.
      bindE (case background of
               None \<Rightarrow> Inr None
             | Some b \<Rightarrow> (let b = prepareMask b
                          in bindE (checkMixedDims self (shape b) dims) (\<lambda>_. Inr (Some b)))) (\<lambda>background.
      bindE (dispatch L self dims img) (\<lambda>out.
      let out = map_nd (\<lambda>x. clip (x * scale self) 0 1) out in
      bindE (case msk of None \<Rightarrow> Inr out | Some m \<Rightarrow> blend out m (*)) (\<lambda>out.
      bindE (case background of None \<Rightarrow> Inr out | Some b \<Rightarrow> blend out b (+)) (\<lambda>out.
      Inr (map_nd (\<lambda>x. clip x 0 1) out)))))))))"

subsection \<open>The standard HSV to RGB conversion\<close>

text \<open>
  Modelled from the spec: the standard HSV to RGB conversion (\<open>hsv_to_rgb\<close> of the colour
  library) is not part of the sources. The hue is cut into six sectors; the library leaves
  the result unset for a hue outside \<open>[0, 1]\<close>, for which the model gives black.
\<close>

definition hsv_to_rgb_std :: "rgb \<Rightarrow> rgb" where
  "hsv_to_rgb_std = (\<lambda>(h, s, v).
     let i = (if 0 \<le> h then \<lfloor>h * 6\<rfloor> else \<lceil>h * 6\<rceil>);
         f = h * 6 - of_int i;
         p = v * (1 - s);
         q = v * (1 - s * f);
         t = v * (1 - s * (1 - f))
     in if s = 0 then (v, v, v)
        else if i mod 6 = 0 then (v, t, p)
        else if i = 1 then (q, v, p)
        else if i = 2 then (p, v, t)
        else if i = 3 then (p, q, v)
        else if i = 4 then (t, p, v)
        else if i = 5 then (v, p, q)
        else (0, 0, 0))"

section \<open>optimize\<close>

text \<open>
  The numerical collaborators of \<open>optimize\<close>, consumed as black boxes: the flattened square
  matrix of pairwise cosine distances (\<open>None\<close> when the library refuses the array), the
  correlation coefficient of two vectors, and the bounded minimizer.
\<close>

record scipy =
  cosine_distances :: "ndarray \<Rightarrow> real list option"
  corrcoef01 :: "real list \<Rightarrow> real list \<Rightarrow> real"
  minimize :: "(real list \<Rightarrow> real option) \<Rightarrow> real list \<Rightarrow> (real \<times> real) list \<Rightarrow> real list option"

datatype palette = ColorList "real list list" | AsListedColormap "real list list"

definition reshape_n3 :: "nat \<Rightarrow> real list \<Rightarrow> ndarray" where
  "reshape_n3 n x = \<lparr>shape = [n, 3], elems = (\<lambda>ix. x ! (ix ! 0 * 3 + ix ! 1))\<rparr>"

definition tolist_n3 :: "nat \<Rightarrow> real list \<Rightarrow> real list list" where
  "tolist_n3 n x = map (\<lambda>i. [x ! (i * 3), x ! (i * 3 + 1), x ! (i * 3 + 2)]) [0..<n]"

text \<open>\<open>rand n\<close> is the vector of \<open>n\<close> random numbers drawn for the initial guess.\<close>

definition optimize :: "scipy \<Rightarrow> (nat \<Rightarrow> real list) \<Rightarrow> ndarray \<Rightarrow> bool \<Rightarrow> error + palette" where
  "optimize S rand mat asCmap =
     (if ndim mat < 2 then Inl InvalidInput
      else
        let nclrs = hd (shape mat) in
        case cosine_distances S mat of
          None \<Rightarrow> Inl LibraryError
        | Some distMat \<Rightarrow>
            let optFunc = (\<lambda>x. map_option (\<lambda>d. 1 - corrcoef01 S distMat d)
                                  (cosine_distances S (reshape_n3 nclrs x)));
                init = rand (nclrs * 3);
                bounds = map (\<lambda>_. (0, 1)) [0..<nclrs * 3]
            in (case minimize S optFunc init bounds of
                  None \<Rightarrow> Inl LibraryError
                | Some x \<Rightarrow>
                    let newClrs = tolist_n3 nclrs x
                    in Inr (if asCmap then AsListedColormap newClrs else ColorList newClrs)))"

section \<open>Reading a result\<close>

definition pixel :: "error + ndarray \<Rightarrow> nat list \<Rightarrow> error + real" where
  "pixel r ix = (case r of Inl e \<Rightarrow> Inl e | Inr a \<Rightarrow> Inr (elems a ix))"

definition shape_of :: "error + ndarray \<Rightarrow> error + nat list" where
  "shape_of r = (case r of Inl e \<Rightarrow> Inl e | Inr a \<Rightarrow> Inr (shape a))"

text \<open>
  Two intermediate values of \<open>transform\<close> on an image that passes the dimension check: the
  raw colorization bound to \<open>out\<close> by the branches, before it is scaled and clipped, and,
  for a three-dimensional polar image, the HSV array handed to the conversion.
\<close>

definition raw_colorized :: "lib \<Rightarrow> colorize \<Rightarrow> ndarray \<Rightarrow> error + ndarray" where
  "raw_colorized L self img =
     bindE (Normalize (vmin self) (vmax self) True img) (dispatch L self (shape img))"

definition polar_fed :: "colorize \<Rightarrow> ndarray \<Rightarrow> error + ndarray" where
  "polar_fed self img =
     bindE (Normalize (vmin self) (vmax self) True img)
       (\<lambda>n. Inr (polar_hsv (scale self) (shape img) n))"

section \<open>Valid inputs\<close>

text \<open>
  The spatial shape of an image: the shape without the channel axis for the four keyword
  schemes, the whole shape for a colormap.
\<close>

definition spatial_shape :: "colorize \<Rightarrow> ndarray \<Rightarrow> nat list" where
  "spatial_shape self img =
     (case cmap self of
        Str s \<Rightarrow> if s \<in> set conversions then tl (shape img) else shape img
      | _ \<Rightarrow> shape img)"

text \<open>The normalization bounds in force are consistent: both unset on an empty array, or
  a minimum that does not exceed the maximum.\<close>

fun bounds_ok :: "real option \<times> real option \<Rightarrow> bool" where
  "bounds_ok (None, None) = True"
| "bounds_ok (Some l, Some h) = (l \<le> h)"
| "bounds_ok (None, Some h) = False"
| "bounds_ok (Some l, None) = False"

text \<open>
  A valid input: a selector the colorizer knows, an image of the shape that the selector
  requires (channel axis of 3 for rgb and hsv, of 2 for polar, of the number of colours for
  indexed, followed by two or three spatial axes; two or three axes for a colormap), and
  consistent normalization bounds.
\<close>

definition valid_input :: "lib \<Rightarrow> colorize \<Rightarrow> ndarray \<Rightarrow> bool" where
  "valid_input L self img =
     ((case cmap self of
         Str s \<Rightarrow>
           if s = ''rgb'' \<or> s = ''hsv'' then (ndim img = 3 \<or> ndim img = 4) \<and> hd (shape img) = 3
           else if s = ''polar'' then (ndim img = 3 \<or> ndim img = 4) \<and> hd (shape img) = 2
           else if s = ''indexed'' then
             (ndim img = 3 \<or> ndim img = 4) \<and> colors self \<noteq> None \<and>
             hd (shape img) = length (the (colors self))
           else (ndim img = 2 \<or> ndim img = 3) \<and> get_cmap L s \<noteq> None
       | ListedColormap f \<Rightarrow> ndim img = 2 \<or> ndim img = 3
       | LinearSegmentedColormap f \<Rightarrow> False
       | OtherObject \<Rightarrow> False)
      \<and> bounds_ok (autoscale_None (vmin self) (vmax self) img))"

text \<open>An optional mask or background is valid when it has the spatial shape of the image.\<close>

definition valid_aux :: "colorize \<Rightarrow> ndarray \<Rightarrow> ndarray option \<Rightarrow> bool" where
  "valid_aux self img aux =
     (case aux of None \<Rightarrow> True | Some a \<Rightarrow> shape a = spatial_shape self img)"

text \<open>
  An instance of the colour library for concrete evaluations: the standard HSV conversion,
  the linear ramp from black to the colour, and a single named colormap, a grey ramp.

  Modelled from the spec: the ramp of the colour library is not part of the sources. It is
  a table of 256 colours, entry \<open>k\<close> being the colour scaled by \<open>k / 255\<close>, and a value
  \<open>x\<close> is looked up at entry \<open>floor (256 x)\<close>, kept within 0 and 255; the opacity is 1.
\<close>

definition linear_ramp :: "rgb \<Rightarrow> colormap" where
  "linear_ramp = (\<lambda>(r, g, b) x.
     let k = real_of_int (min 255 (max 0 \<lfloor>x * 256\<rfloor>)) / 255
     in (k * r, k * g, k * b, 1))"

definition demo_lib :: lib where
  "demo_lib = \<lparr>hsv_to_rgb = hsv_to_rgb_std, from_list = linear_ramp,
               get_cmap = (\<lambda>s. if s = ''gray'' then Some (linear_ramp (1, 1, 1)) else None)\<rparr>"

section \<open>Concrete inputs\<close>

text \<open>The default configuration with the given selector and brightness factor.\<close>

definition config :: "selector \<Rightarrow> real \<Rightarrow> colorize" where
  "config sel scl = \<lparr>cmap = sel, scale = scl, colors = None, vmin = None, vmax = None\<rparr>"

text \<open>A 3-by-1-by-2 image with values in \<open>[0, 1]\<close> that attain 0 and 1, and a mask and a
  background of its spatial shape.\<close>

definition img_rgb :: ndarray where
  "img_rgb = \<lparr>shape = [3, 1, 2],
              elems = (\<lambda>ix. if ix = [0, 0, 1] then 1 else if ix = [1, 0, 1] then 1 / 2 else 0)\<rparr>"

definition mask_half :: ndarray where
  "mask_half = \<lparr>shape = [1, 2], elems = (\<lambda>ix. 1 / 2)\<rparr>"

definition bg_quarter :: ndarray where
  "bg_quarter = \<lparr>shape = [1, 2], elems = (\<lambda>ix. 1 / 4)\<rparr>"

text \<open>A 3-by-1-by-1 image with values in \<open>[0, 1]\<close> whose largest value is one half.\<close>

definition img_low :: ndarray where
  "img_low = \<lparr>shape = [3, 1, 1],
              elems = (\<lambda>ix. if ix = [1, 0, 0] then 1 / 4 else if ix = [2, 0, 0] then 1 / 2 else 0)\<rparr>"

text \<open>An all-zero 3-by-1-by-2 image and a background with values 0 and one half.\<close>

definition img_zero :: ndarray where
  "img_zero = \<lparr>shape = [3, 1, 2], elems = (\<lambda>ix. 0)\<rparr>"

definition bg_ramp :: ndarray where
  "bg_ramp = \<lparr>shape = [1, 2], elems = (\<lambda>ix. if ix = [0, 1] then 1 / 2 else 0)\<rparr>"

text \<open>A 2-by-2 image for a colormap, and a grey colormap function.\<close>

definition img_flat :: ndarray where
  "img_flat = \<lparr>shape = [2, 2], elems = (\<lambda>ix. if ix = [1, 1] then 1 else 0)\<rparr>"

definition grey :: colormap where
  "grey = (\<lambda>x. (x, x, x, 1))"


text \<open>Polar images: a single pixel with channels 1 and 0; a single pixel with channels 0
  and \<open>-1\<close>; and two pixels with channel 0 equal to 0 and channel 1 equal to \<open>-1\<close> and
  \<open>-2\<close>.\<close>

definition img_unit :: ndarray where
  "img_unit = \<lparr>shape = [2, 1, 1], elems = (\<lambda>ix. if ix = [0, 0, 0] then 1 else 0)\<rparr>"

definition img_ref :: ndarray where
  "img_ref = \<lparr>shape = [2, 1, 1], elems = (\<lambda>ix. if ix = [1, 0, 0] then - 1 else 0)\<rparr>"

definition img_two :: ndarray where
  "img_two = \<lparr>shape = [2, 1, 2],
              elems = (\<lambda>ix. if ix = [1, 0, 0] then - 1 else if ix = [1, 0, 1] then - 2 else 0)\<rparr>"

text \<open>An indexed image with two channels and two pixels, each channel nonzero in one
  pixel only, and the colours red and green.\<close>

definition img_idx :: ndarray where
  "img_idx = \<lparr>shape = [2, 1, 2],
              elems = (\<lambda>ix. if ix = [0, 0, 0] then 1 else if ix = [1, 0, 1] then 1 / 2 else 0)\<rparr>"

definition red_green :: "rgb list" where
  "red_green = [(1, 0, 0), (0, 1, 0)]"

text \<open>An indexed image with two channels and two pixels whose first pixel is 1 in channel 0
  and 0 in channel 1, and whose second pixel is 0 in channel 0 and \<open>-1\<close> in channel 1.\<close>

definition img_bleed :: ndarray where
  "img_bleed = \<lparr>shape = [2, 1, 2],
                elems = (\<lambda>ix. if ix = [0, 0, 0] then 1 else if ix = [1, 0, 1] then - 1 else 0)\<rparr>"

section \<open>Basic facts about the array operations\<close>

lemma bindE_Inr [simp]: "bindE (Inr x) f = f x"
  by (simp add: bindE_def)

lemma bindE_Inl [simp]: "bindE (Inl e) f = Inl e"
  by (simp add: bindE_def)

lemma in_shape_indices: "in_shape s ix \<Longrightarrow> ix \<in> set (indices s)"
  by (simp add: in_shape_def indices_def product_lists_set list_all2_map2)

lemma zero_in_shape: "prod_list s \<noteq> 0 \<Longrightarrow> in_shape s (map (\<lambda>n. 0) s)"
  by (induction s) (simp_all add: in_shape_def)

lemma amin_le: "in_shape (shape a) ix \<Longrightarrow> amin a \<le> elems a ix"
  by (simp add: amin_def values_nd_def in_shape_indices)

lemma le_amax: "in_shape (shape a) ix \<Longrightarrow> elems a ix \<le> amax a"
  by (simp add: amax_def values_nd_def in_shape_indices)

lemma amin_le_amax: "asize a \<noteq> 0 \<Longrightarrow> amin a \<le> amax a"
proof -
  assume "asize a \<noteq> 0"
  then have "in_shape (shape a) (map (\<lambda>n. 0) (shape a))"
    by (simp add: asize_def zero_in_shape)
  then have "amin a \<le> elems a (map (\<lambda>n. 0) (shape a))" "elems a (map (\<lambda>n. 0) (shape a)) \<le> amax a"
    by (rule amin_le, rule le_amax)
  then show ?thesis by linarith
qed

lemma clip_range: "0 \<le> clip x 0 1 \<and> clip x 0 1 \<le> 1"
  by (simp add: clip_def)

lemma clip_id: "0 \<le> x \<Longrightarrow> x \<le> 1 \<Longrightarrow> clip x 0 1 = x"
  by (simp add: clip_def)

lemma broadcastable_refl: "broadcastable s s"
  by (induction s) simp_all

lemma bc_rev_id: "list_all2 (<) js ms \<Longrightarrow> bc_rev ms js = js"
  by (induction js ms rule: list_all2_induct) auto

lemma bc_index_id: "in_shape s jx \<Longrightarrow> bc_index s jx = jx"
  by (simp add: bc_index_def in_shape_def bc_rev_id)

lemma isclose_refl: "isclose a a"
  by (simp add: isclose_def)

lemma allclose_refl: "allclose s s = Inr True"
  by (simp add: allclose_def list_all2_same isclose_refl)

lemma upt3: "[0..<3] = [0, 1, 2]"
  by (simp add: upt_rec)

lemma blend_step_ok:
  assumes "shape img = shape m @ [3]" "i < 3"
  shows "blend_step op (length (shape m)) m i img =
     Inr (img\<lparr>elems := (\<lambda>ix. if ix ! length (shape m) = i
                                then op (elems img ix) (elems m (bc_index (shape m) (remove_nth (length (shape m)) ix)))
                                else elems img ix)\<rparr>)"
  using assms by (simp add: blend_step_def ndim_def remove_nth_def broadcastable_refl)

text \<open>Blending an auxiliary array of the spatial shape succeeds, keeps the shape and
  applies the operator to each of the three colour planes.\<close>

lemma blend_same_shape:
  assumes "shape img = shape m @ [3]" "length (shape m) = 2 \<or> length (shape m) = 3"
  shows "\<exists>out. blend img m op = Inr out \<and> shape out = shape img \<and>
           (\<forall>jx c. in_shape (shape m) jx \<longrightarrow> c < 3 \<longrightarrow>
              elems out (jx @ [c]) = op (elems img (jx @ [c])) (elems m jx))"
proof -
  let ?sp = "shape m"
  let ?k = "length (shape m)"
  obtain a0 where a0: "blend_step op ?k m 0 img = Inr a0" "shape a0 = ?sp @ [3]"
    "\<And>ix. elems a0 ix = (if ix ! ?k = 0 then op (elems img ix) (elems m (bc_index ?sp (remove_nth ?k ix))) else elems img ix)"
    using blend_step_ok [OF assms(1), of 0 op] assms(1) by simp
  obtain a1 where a1: "blend_step op ?k m 1 a0 = Inr a1" "shape a1 = ?sp @ [3]"
    "\<And>ix. elems a1 ix = (if ix ! ?k = 1 then op (elems a0 ix) (elems m (bc_index ?sp (remove_nth ?k ix))) else elems a0 ix)"
    using blend_step_ok [OF a0(2), of 1 op] a0(2) by simp
  obtain a2 where a2: "blend_step op ?k m 2 a1 = Inr a2" "shape a2 = ?sp @ [3]"
    "\<And>ix. elems a2 ix = (if ix ! ?k = 2 then op (elems a1 ix) (elems m (bc_index ?sp (remove_nth ?k ix))) else elems a1 ix)"
    using blend_step_ok [OF a1(2), of 2 op] a1(2) by simp
  have bl: "blend img m op = Inr a2"
    using assms(2) a0(1) a1(1) a2(1) by (auto simp add: blend_def ndim_def upt3)
  have el: "elems a2 (jx @ [c]) = op (elems img (jx @ [c])) (elems m jx)"
    if "in_shape ?sp jx" "c < 3" for jx c
  proof -
    have len: "length jx = ?k" using that(1) by (simp add: in_shape_def list_all2_lengthD)
    have nth: "(jx @ [d]) ! ?k = d" for d using len by (simp add: nth_append)
    have rm: "remove_nth ?k (jx @ [d]) = jx" for d using len by (simp add: remove_nth_def)
    have "c = 0 \<or> c = 1 \<or> c = 2" using that(2) by auto
    then show ?thesis
      by (auto simp add: a2(3) a1(3) a0(3) nth rm bc_index_id [OF that(1)])
  qed
  show ?thesis using bl a2(2) assms(1) el by auto
qed

lemma Normalize_shape:
  assumes "bounds_ok (autoscale_None lo hi a)"
  shows "\<exists>n. Normalize lo hi c a = Inr n \<and> shape n = shape a"
proof (cases "autoscale_None lo hi a")
  case (Pair l h)
  then show ?thesis using assms
    by (cases l; cases h) (auto simp add: Normalize_def map_nd_def)
qed

lemma Normalize_elems:
  assumes "autoscale_None lo hi a = (Some l, Some h)" "l < h"
  shows "Normalize lo hi True a = Inr (map_nd (\<lambda>x. (clip x l h - l) / (h - l)) a)"
  using assms by (simp add: Normalize_def)

lemma default_bounds_ok: "bounds_ok (autoscale_None None None a)"
  by (simp add: autoscale_None_def amin_le_amax)

lemma len2: "length xs = 2 \<Longrightarrow> \<exists>a b. xs = [a, b]"
  by (auto simp add: length_Suc_conv numeral_2_eq_2)

lemma len3: "length xs = 3 \<Longrightarrow> \<exists>a b c. xs = [a, b, c]"
  by (auto simp add: length_Suc_conv numeral_3_eq_3)

lemma len4: "length xs = 4 \<Longrightarrow> \<exists>a b c d. xs = [a, b, c, d]"
proof -
  assume "length xs = 4"
  then have "length xs = Suc (Suc (Suc (Suc 0)))" by simp
  then show ?thesis by (auto simp add: length_Suc_conv)
qed

lemma fold_setz_shape: "shape (fold (\<lambda>i out. setz out i (g i)) xs z) = shape z"
  by (induction xs arbitrary: z) (simp_all add: setz_def)

lemma fold_indexed_shape: "shape (fold (indexed_step L img) xs z) = shape z"
  by (induction xs arbitrary: z) (simp_all add: indexed_step_def zip_nd_def Let_def split: prod.splits)

lemma rgb_out_shape:
  assumes "ndim n = 3 \<or> ndim n = 4"
  shows "\<exists>out. rgb_out n = Inr out \<and> shape out = tl (shape n) @ [hd (shape n)]"
  using assms
  by (auto simp add: rgb_out_def ndim_def transpose_nd_def dest!: len3 len4)

lemma hsv_out_shape:
  assumes "ndim n = 3 \<or> ndim n = 4" "dims = shape n"
  shows "\<exists>out. hsv_out L dims n = Inr out \<and> shape out = tl (shape n) @ [3]"
  using assms
  by (auto simp add: hsv_out_def ndim_def fold_setz_shape zeros_def along_last_def dstack_def sub0_def dest!: len3 len4)

lemma polar_out_shape:
  assumes "ndim n = 3 \<or> ndim n = 4" "dims = shape n"
  shows "\<exists>out. polar_out L scl dims n = Inr out \<and> shape out = tl (shape n) @ [3]"
  using assms
  by (auto simp add: polar_out_def ndim_def fold_setz_shape zeros_def along_last_def dstack_def
       polar_hsv_def theta_of_def zip_nd_def sub0_def dest!: len3 len4)

lemma indexed_out_shape:
  assumes "ndim n = 3 \<or> ndim n = 4" "dims = shape n"
  shows "\<exists>out. indexed_out L (Some cs) dims n = Inr out \<and> shape out = tl (shape n) @ [3]"
  using assms
  by (auto simp add: indexed_out_def ndim_def fold_indexed_shape zeros_def dest!: len3 len4)

lemma listed_out_shape:
  assumes "ndim n = 2 \<or> ndim n = 3"
  shows "\<exists>out. listed_out f n = Inr out \<and> shape out = shape n @ [3]"
  using assms
  by (auto simp add: listed_out_def ndim_def slice03_def apply_cmap_def dest!: len2 len3)

lemma named_out_shape:
  assumes "ndim n = 2 \<or> ndim n = 3" "get_cmap L s = Some f"
  shows "\<exists>out. named_out L s n = Inr out \<and> shape out = shape n @ [3]"
  using assms
  by (auto simp add: named_out_def ndim_def slice03_def apply_cmap_def Let_def dest!: len2 len3)

lemma checkDims_valid: "valid_input L self img \<Longrightarrow> checkDims self (shape img) = Inr ()"
  by (cases "cmap self")
     (auto simp add: valid_input_def checkDims_def conversions_def dims0_def ndim_def
        dest!: len2 len3 len4 split: if_splits)

lemma spatial_len:
  "valid_input L self img \<Longrightarrow> length (spatial_shape self img) = 2 \<or> length (spatial_shape self img) = 3"
  by (cases "cmap self")
     (auto simp add: valid_input_def spatial_shape_def conversions_def ndim_def split: if_splits)

lemma checkMixedDims_spatial: "checkMixedDims self (spatial_shape self img) (shape img) = Inr ()"
  by (cases "cmap self") (auto simp add: checkMixedDims_def spatial_shape_def allclose_refl)

lemma dispatch_valid:
  assumes "valid_input L self img" "shape n = shape img"
  shows "\<exists>out. dispatch L self (shape img) n = Inr out \<and> shape out = spatial_shape self img @ [3]"
proof (cases "cmap self")
  case (Str s)
  have nd: "ndim n = ndim img" using assms(2) by (simp add: ndim_def)
  consider "s = ''rgb''" | "s = ''hsv''" | "s = ''polar''" | "s = ''indexed''" | "s \<notin> set conversions"
    by (auto simp add: conversions_def)
  then show ?thesis
  proof cases
    case 1
    then show ?thesis using Str assms rgb_out_shape [of n] nd
      by (auto simp add: valid_input_def dispatch_def spatial_shape_def conversions_def)
  next
    case 2
    then show ?thesis using Str assms hsv_out_shape [of n "shape img" L] nd
      by (auto simp add: valid_input_def dispatch_def spatial_shape_def conversions_def)
  next
    case 3
    then show ?thesis using Str assms polar_out_shape [of n "shape img" L "scale self"] nd
      by (auto simp add: valid_input_def dispatch_def spatial_shape_def conversions_def)
  next
    case 4
    then show ?thesis using Str assms indexed_out_shape [of n "shape img" L "the (colors self)"] nd
      by (auto simp add: valid_input_def dispatch_def spatial_shape_def conversions_def)
  next
    case 5
    then have ne: "s \<noteq> ''rgb''" "s \<noteq> ''hsv''" "s \<noteq> ''polar''" "s \<noteq> ''indexed''"
      by (auto simp add: conversions_def)
    from assms(1) Str ne obtain f where f: "get_cmap L s = Some f" and d: "ndim img = 2 \<or> ndim img = 3"
      by (auto simp add: valid_input_def)
    show ?thesis using Str 5 ne f d nd assms(2) named_out_shape [of n L s f]
      by (auto simp add: dispatch_def spatial_shape_def)
  qed
next
  case (ListedColormap f)
  then show ?thesis using assms listed_out_shape [of n f]
    by (auto simp add: valid_input_def dispatch_def spatial_shape_def ndim_def)
next
  case (LinearSegmentedColormap f)
  then show ?thesis using assms by (simp add: valid_input_def)
next
  case OtherObject
  then show ?thesis using assms by (simp add: valid_input_def)
qed

lemma transform_pixels:
  assumes v: "valid_input L self img"
    and vm: "valid_aux self img msk" and vb: "valid_aux self img bg"
    and N: "Normalize (vmin self) (vmax self) True img = Inr n"
    and D: "dispatch L self (shape img) n = Inr raw"
  shows "\<exists>out. transform L self img msk bg = Inr out \<and>
           shape out = spatial_shape self img @ [3] \<and>
           (\<forall>ix. 0 \<le> elems out ix \<and> elems out ix \<le> 1) \<and>
           (\<forall>jx c. in_shape (spatial_shape self img) jx \<longrightarrow> c < 3 \<longrightarrow>
              elems out (jx @ [c]) =
                clip ((case bg of None \<Rightarrow> (\<lambda>y. y) | Some b \<Rightarrow> (\<lambda>y. y + max 0 (elems b jx)))
                       ((case msk of None \<Rightarrow> (\<lambda>y. y) | Some m \<Rightarrow> (\<lambda>y. y * max 0 (elems m jx)))
                         (clip (elems raw (jx @ [c]) * scale self) 0 1))) 0 1)"
proof -
  let ?sp = "spatial_shape self img"
  let ?col = "map_nd (\<lambda>x. clip (x * scale self) 0 1) raw"
  have bok: "bounds_ok (autoscale_None (vmin self) (vmax self) img)"
    using v by (simp add: valid_input_def)
  have sn: "shape n = shape img"
    using Normalize_shape [OF bok, of True] N by auto
  have sraw: "shape raw = ?sp @ [3]"
    using dispatch_valid [OF v sn] D by auto
  have scol: "shape ?col = ?sp @ [3]" using sraw by (simp add: map_nd_def)
  have len: "length ?sp = 2 \<or> length ?sp = 3" by (rule spatial_len [OF v])
  define mstage where "mstage = (case msk of None \<Rightarrow> Inr ?col | Some m \<Rightarrow> blend ?col (prepareMask m) (*))"
  obtain o1 where o1: "mstage = Inr o1" "shape o1 = ?sp @ [3]"
    "\<And>jx c. in_shape ?sp jx \<Longrightarrow> c < 3 \<Longrightarrow> elems o1 (jx @ [c]) =
        (case msk of None \<Rightarrow> (\<lambda>y. y) | Some m \<Rightarrow> (\<lambda>y. y * max 0 (elems m jx))) (elems ?col (jx @ [c]))"
  proof (cases msk)
    case None
    then show ?thesis using that [of ?col] scol by (simp add: mstage_def)
  next
    case (Some m)
    then have sm: "shape (prepareMask m) = ?sp" using vm by (simp add: valid_aux_def prepareMask_def map_nd_def)
    from blend_same_shape [of ?col "prepareMask m" "(*)"] sm scol len
    obtain out where "blend ?col (prepareMask m) (*) = Inr out" "shape out = shape ?col"
      "\<forall>jx c. in_shape ?sp jx \<longrightarrow> c < 3 \<longrightarrow>
          elems out (jx @ [c]) = elems ?col (jx @ [c]) * elems (prepareMask m) jx"
      by auto
    then show ?thesis using that [of out] Some scol
      by (simp add: mstage_def prepareMask_def map_nd_def)
  qed
  define bstage where "bstage = (case bg of None \<Rightarrow> Inr o1 | Some b \<Rightarrow> blend o1 (prepareMask b) (+))"
  obtain o2 where o2: "bstage = Inr o2" "shape o2 = ?sp @ [3]"
    "\<And>jx c. in_shape ?sp jx \<Longrightarrow> c < 3 \<Longrightarrow> elems o2 (jx @ [c]) =
        (case bg of None \<Rightarrow> (\<lambda>y. y) | Some b \<Rightarrow> (\<lambda>y. y + max 0 (elems b jx))) (elems o1 (jx @ [c]))"
  proof (cases bg)
    case None
    then show ?thesis using that [of o1] o1(2) by (simp add: bstage_def)
  next
    case (Some b)
    then have sb: "shape (prepareMask b) = ?sp" using vb by (simp add: valid_aux_def prepareMask_def map_nd_def)
    from blend_same_shape [of o1 "prepareMask b" "(+)"] sb o1(2) len
    obtain out where "blend o1 (prepareMask b) (+) = Inr out" "shape out = shape o1"
      "\<forall>jx c. in_shape ?sp jx \<longrightarrow> c < 3 \<longrightarrow>
          elems out (jx @ [c]) = elems o1 (jx @ [c]) + elems (prepareMask b) jx"
      by auto
    then show ?thesis using that [of out] Some o1(2)
      by (simp add: bstage_def prepareMask_def map_nd_def)
  qed
  have pm: "(case msk of None \<Rightarrow> Inr None
             | Some m \<Rightarrow> bindE (checkMixedDims self (shape (prepareMask m)) (shape img))
                          (\<lambda>_. Inr (Some (prepareMask m))))
            = Inr (map_option prepareMask msk)"
    using vm checkMixedDims_spatial [of self img]
    by (cases msk) (simp_all add: valid_aux_def prepareMask_def map_nd_def)
  have pb: "(case bg of None \<Rightarrow> Inr None
             | Some m \<Rightarrow> bindE (checkMixedDims self (shape (prepareMask m)) (shape img))
                          (\<lambda>_. Inr (Some (prepareMask m))))
            = Inr (map_option prepareMask bg)"
    using vb checkMixedDims_spatial [of self img]
    by (cases bg) (simp_all add: valid_aux_def prepareMask_def map_nd_def)
  have m': "(case map_option prepareMask msk of None \<Rightarrow> Inr ?col | Some m \<Rightarrow> blend ?col m (*)) = mstage"
    by (cases msk) (simp_all add: mstage_def)
  have b': "(case map_option prepareMask bg of None \<Rightarrow> Inr o1 | Some b \<Rightarrow> blend o1 b (+)) = bstage"
    by (cases bg) (simp_all add: bstage_def)
  have tr: "transform L self img msk bg = Inr (map_nd (\<lambda>x. clip x 0 1) o2)"
    unfolding transform_def Let_def
    by (simp only: checkDims_valid [OF v] N pm pb D bindE_Inr m' o1(1) b' o2(1))
  have el: "elems (map_nd (\<lambda>x. clip x 0 1) o2) (jx @ [c]) =
                clip ((case bg of None \<Rightarrow> (\<lambda>y. y) | Some b \<Rightarrow> (\<lambda>y. y + max 0 (elems b jx)))
                       ((case msk of None \<Rightarrow> (\<lambda>y. y) | Some m \<Rightarrow> (\<lambda>y. y * max 0 (elems m jx)))
                         (clip (elems raw (jx @ [c]) * scale self) 0 1))) 0 1"
    if "in_shape ?sp jx" "c < 3" for jx c
    using o2(3) [OF that] o1(3) [OF that] by (simp add: map_nd_def)
  show ?thesis
    using tr o2(2) el by (auto simp add: map_nd_def clip_range)
qed

lemmas eval_bounds = autoscale_None_def asize_def amin_def amax_def values_nd_def indices_def upt_rec

lemma transpose_120: "elems (transpose_nd n [1, 2, 0]) [i, j, c] = elems n [c, i, j]"
  by (simp add: transpose_nd_def index_of_def upt_rec)

lemma transpose_1230: "elems (transpose_nd n [1, 2, 3, 0]) [i, j, k, c] = elems n [c, i, j, k]"
  by (simp add: transpose_nd_def index_of_def upt_rec)

lemma transpose_120': "elems (transpose_nd n [Suc 0, 2, 0]) [i, j, c] = elems n [c, i, j]"
  using transpose_120 [of n i j c] by simp

lemma transpose_1230': "elems (transpose_nd n [Suc 0, 2, 3, 0]) [i, j, k, c] = elems n [c, i, j, k]"
  using transpose_1230 [of n i j k c] by simp

lemma in_shape2: "in_shape [X, Y] [i, j] = (i < X \<and> j < Y)"
  by (simp add: in_shape_def)

lemma in_shape3: "in_shape [X, Y, Z] [i, j, k] = (i < X \<and> j < Y \<and> k < Z)"
  by (simp add: in_shape_def)

lemma clip_clip: "clip (clip x 0 1) 0 1 = clip x 0 1"
  by (simp add: clip_def)

text \<open>Without mask and background, the output is the raw colorization scaled and clipped.\<close>

lemma transform_plain:
  assumes v: "valid_input L self img"
    and N: "Normalize (vmin self) (vmax self) True img = Inr n"
    and D: "dispatch L self (shape img) n = Inr raw"
    and ix: "in_shape (spatial_shape self img) jx" "c < 3"
  shows "pixel (transform L self img None None) (jx @ [c]) = Inr (clip (elems raw (jx @ [c]) * scale self) 0 1)"
proof -
  have "valid_aux self img None" by (simp add: valid_aux_def)
  from transform_pixels [OF v this this N D]
  obtain out where o: "transform L self img None None = Inr out"
    and px: "\<forall>jx c. in_shape (spatial_shape self img) jx \<longrightarrow> c < 3 \<longrightarrow>
        elems out (jx @ [c]) = clip (clip (elems raw (jx @ [c]) * scale self) 0 1) 0 1"
    by auto
  show ?thesis using o px ix by (simp add: pixel_def clip_clip)
qed

lemma transform_shape_plain:
  assumes v: "valid_input L self img"
  shows "shape_of (transform L self img None None) = Inr (spatial_shape self img @ [3])"
proof -
  have "bounds_ok (autoscale_None (vmin self) (vmax self) img)"
    using v by (simp add: valid_input_def)
  then obtain n where n: "Normalize (vmin self) (vmax self) True img = Inr n" "shape n = shape img"
    using Normalize_shape by blast
  obtain raw where raw: "dispatch L self (shape img) n = Inr raw"
    using dispatch_valid [OF v n(2)] by blast
  have "valid_aux self img None" by (simp add: valid_aux_def)
  from transform_pixels [OF v this this n(1) raw]
  show ?thesis by (auto simp add: shape_of_def)
qed

lemma rgb_pixel:
  assumes sel: "cmap self = Str ''rgb''" and sh: "shape img = [3, X, Y]"
    and ab: "autoscale_None (vmin self) (vmax self) img = (Some l, Some h)" and lh: "l < h"
    and ix: "i < X" "j < Y" "c < 3"
  shows "pixel (transform L self img None None) [i, j, c] =
           Inr (clip ((clip (elems img [c, i, j]) l h - l) / (h - l) * scale self) 0 1)"
proof -
  let ?n = "map_nd (\<lambda>x. (clip x l h - l) / (h - l)) img"
  have v: "valid_input L self img"
    using sel sh ab lh by (simp add: valid_input_def ndim_def)
  have N: "Normalize (vmin self) (vmax self) True img = Inr ?n"
    by (rule Normalize_elems [OF ab lh])
  have D: "dispatch L self (shape img) ?n = Inr (transpose_nd ?n [1, 2, 0])"
    using sel sh by (simp add: dispatch_def rgb_out_def ndim_def map_nd_def)
  have sp: "in_shape (spatial_shape self img) [i, j]"
    using sel sh ix by (simp add: spatial_shape_def conversions_def in_shape2)
  from transform_plain [OF v N D sp ix(3)]
  show ?thesis by (simp add: transpose_120' map_nd_def)
qed

lemma transform_pixel:
  assumes v: "valid_input L self img"
    and vm: "valid_aux self img msk" and vb: "valid_aux self img bg"
    and N: "Normalize (vmin self) (vmax self) True img = Inr n"
    and D: "dispatch L self (shape img) n = Inr raw"
    and ix: "in_shape (spatial_shape self img) jx" "c < 3"
  shows "pixel (transform L self img msk bg) (jx @ [c]) =
           Inr (clip ((case bg of None \<Rightarrow> (\<lambda>y. y) | Some b \<Rightarrow> (\<lambda>y. y + max 0 (elems b jx)))
                       ((case msk of None \<Rightarrow> (\<lambda>y. y) | Some m \<Rightarrow> (\<lambda>y. y * max 0 (elems m jx)))
                         (clip (elems raw (jx @ [c]) * scale self) 0 1))) 0 1)"
proof -
  from transform_pixels [OF v vm vb N D]
  obtain out where o: "transform L self img msk bg = Inr out"
    and px: "\<forall>jx c. in_shape (spatial_shape self img) jx \<longrightarrow> c < 3 \<longrightarrow>
        elems out (jx @ [c]) =
           clip ((case bg of None \<Rightarrow> (\<lambda>y. y) | Some b \<Rightarrow> (\<lambda>y. y + max 0 (elems b jx)))
                       ((case msk of None \<Rightarrow> (\<lambda>y. y) | Some m \<Rightarrow> (\<lambda>y. y * max 0 (elems m jx)))
                         (clip (elems raw (jx @ [c]) * scale self) 0 1))) 0 1"
    by blast
  show ?thesis using o px ix by (simp add: pixel_def)
qed


lemma clip_neq_iff:
  assumes "0 \<le> x" "0 \<le> y"
  shows "(clip x 0 1 \<noteq> clip y 0 1) = (x \<noteq> y \<and> min x y < 1)"
  using assms by (auto simp add: clip_def min_def max_def)

lemma fold_setz_elems:
  "k < N \<Longrightarrow> elems (fold (\<lambda>i out. setz out i (g i)) [0..<N] z) [a, b, k, c] = elems (g k) [a, b, c]"
proof (induction N)
  case 0
  then show ?case by simp
next
  case (Suc N)
  show ?case
  proof (cases "k = N")
    case True
    then show ?thesis by (simp add: setz_def)
  next
    case False
    with Suc show ?thesis by (simp add: setz_def)
  qed
qed

lemma polar_hsv_elems:
  "elems (polar_hsv scl dims n) [i, j, 0] = hue (elems n [0, i, j]) (elems n [1, i, j])"
  "elems (polar_hsv scl dims n) [i, j, 1] = 1"
  "elems (polar_hsv scl dims n) [i, j, 2] = scl * magnitude (elems n [0, i, j]) (elems n [1, i, j])"
  by (simp_all add: polar_hsv_def dstack_def theta_of_def rho_of_def zip_nd_def sub0_def ones_def map_nd_def)

lemma polar_hsv_slice_elems:
  "elems (polar_hsv_slice scl dims n k) [i, j, 0] = hue (elems n [0, i, j, k]) (elems n [1, i, j, k])"
  "elems (polar_hsv_slice scl dims n k) [i, j, 1] = 1"
  "elems (polar_hsv_slice scl dims n k) [i, j, 2] = scl * magnitude (elems n [0, i, j, k]) (elems n [1, i, j, k])"
  by (simp_all add: polar_hsv_slice_def dstack_def theta_of_def rho_of_def zip_nd_def sub0_def ones_def
        map_nd_def getz_def)

lemma polar_hsv_elems_Suc: "elems (polar_hsv scl dims n) [i, j, Suc 0] = 1"
  using polar_hsv_elems(2) [of scl dims n i j] by simp

lemma polar_hsv_slice_elems_Suc: "elems (polar_hsv_slice scl dims n k) [i, j, Suc 0] = 1"
  using polar_hsv_slice_elems(2) [of scl dims n k i j] by simp

lemma along_last_elems:
  "elems (along_last f a) [i, j, c] = comp3 (f (elems a [i, j, 0], elems a [i, j, 1], elems a [i, j, 2])) c"
  by (simp add: along_last_def)

lemma in_shape_len2: "length sp = 2 \<Longrightarrow> in_shape sp jx \<Longrightarrow> \<exists>X Y i j. sp = [X, Y] \<and> jx = [i, j] \<and> i < X \<and> j < Y"
  by (auto simp add: in_shape_def list_all2_Cons2 dest!: len2)

lemma in_shape_len3: "length sp = 3 \<Longrightarrow> in_shape sp jx \<Longrightarrow>
    \<exists>X Y Z i j k. sp = [X, Y, Z] \<and> jx = [i, j, k] \<and> i < X \<and> j < Y \<and> k < Z"
  by (auto simp add: in_shape_def list_all2_Cons2 dest!: len3)

lemma polar_dispatch_pixel:
  assumes sel: "cmap self = Str ''polar''" and sh: "shape img = 2 # sp" "shape n = shape img"
    and len: "length sp = 2 \<or> length sp = 3" and ix: "in_shape sp jx" "c < 3"
  shows "pixel (dispatch L self (shape img) n) (jx @ [c]) =
           Inr (comp3 (hsv_to_rgb L (hue (elems n (0 # jx)) (elems n (1 # jx)), 1,
                                      scale self * magnitude (elems n (0 # jx)) (elems n (1 # jx)))) c)"
proof -
  from len show ?thesis
  proof
    assume "length sp = 2"
    from in_shape_len2 [OF this ix(1)] obtain X Y i j where
      e: "sp = [X, Y]" "jx = [i, j]" "i < X" "j < Y" by blast
    have "dispatch L self (shape img) n = Inr (along_last (hsv_to_rgb L) (polar_hsv (scale self) (shape img) n))"
      using sel sh e by (simp add: dispatch_def polar_out_def ndim_def)
    then show ?thesis using e
      by (simp add: pixel_def along_last_elems polar_hsv_elems polar_hsv_elems_Suc)
  next
    assume "length sp = 3"
    from in_shape_len3 [OF this ix(1)] obtain X Y Z i j k where
      e: "sp = [X, Y, Z]" "jx = [i, j, k]" "i < X" "j < Y" "k < Z" by blast
    have "dispatch L self (shape img) n =
        Inr (fold (\<lambda>i out. setz out i (along_last (hsv_to_rgb L) (polar_hsv_slice (scale self) (shape img) n i)))
               [0..<Z] (zeros [X, Y, Z, 3]))"
      using sel sh e by (simp add: dispatch_def polar_out_def ndim_def)
    then show ?thesis using e
      by (simp add: pixel_def fold_setz_elems along_last_elems polar_hsv_slice_elems polar_hsv_slice_elems_Suc)
  qed
qed

lemma hue_reference: "0 < n0 \<Longrightarrow> hue n0 0 = 0"
  by (simp add: hue_def arctan2_def pymod_def)

lemma magnitude_axis: "0 \<le> n0 \<Longrightarrow> magnitude n0 0 = n0"
  by (simp add: magnitude_def)

lemma hue_off_axis:
  assumes "0 < n0" "0 < n1"
  shows "3 / 4 < hue n0 n1 \<and> hue n0 n1 < 1"
proof -
  have a: "0 < arctan (n0 / n1)" using assms by (simp add: zero_less_arctan_iff)
  have b: "arctan (n0 / n1) < pi / 2" by (rule arctan_ubound)
  let ?x = "arctan (n0 / n1) - pi / 2"
  have at: "arctan2 (- n0) (- n1) + pi / 2 = ?x"
    using assms by (simp add: arctan2_def)
  have fl: "\<lfloor>?x / (pi * 2)\<rfloor> = - 1"
  proof (rule floor_unique)
    have "- (pi * 2) \<le> ?x" using a pi_gt_zero by linarith
    then show "of_int (- 1) \<le> ?x / (pi * 2)" by (simp add: le_divide_eq)
    have "?x < 0" using b pi_gt_zero by linarith
    then show "?x / (pi * 2) < of_int (- 1) + 1" by (simp add: divide_less_0_iff)
  qed
  have pm: "pymod ?x (pi * 2) = ?x + pi * 2"
    by (simp only: pymod_def fl)
  have "hue n0 n1 = (?x + pi * 2) / (2 * pi)"
    by (simp only: hue_def at pm)
  also have "\<dots> = arctan (n0 / n1) / (2 * pi) + 3 / 4"
    by (simp add: field_simps)
  finally have "hue n0 n1 = arctan (n0 / n1) / (2 * pi) + 3 / 4" .
  moreover have "0 < arctan (n0 / n1) / (2 * pi)" using a by simp
  moreover have "arctan (n0 / n1) / (2 * pi) < 1 / 4"
    using b pi_gt_zero by (simp add: divide_less_eq)
  ultimately show ?thesis by linarith
qed

lemma std_reference: "hsv_to_rgb_std (0, 1, v) = (v, 0, 0)"
  by (simp add: hsv_to_rgb_std_def)

lemma std_linear: "comp3 (hsv_to_rgb_std (h, 1, v)) c = v * comp3 (hsv_to_rgb_std (h, 1, 1)) c"
  by (simp add: hsv_to_rgb_std_def Let_def)


lemma std_blue_pos:
  assumes "3 / 4 < h" "h < 1" "0 < v"
  shows "0 < comp3 (hsv_to_rgb_std (h, 1, v)) 2"
proof -
  have lo: "4 \<le> \<lfloor>h * 6\<rfloor>" using assms(1) by (simp add: le_floor_iff)
  have hi: "\<lfloor>h * 6\<rfloor> < 6" using assms(2) by (simp add: floor_less_iff)
  have f: "h * 6 - of_int \<lfloor>h * 6\<rfloor> < 1" by linarith
  from lo hi have "\<lfloor>h * 6\<rfloor> = 4 \<or> \<lfloor>h * 6\<rfloor> = 5" by linarith
  then show ?thesis
  proof
    assume "\<lfloor>h * 6\<rfloor> = 4"
    then show ?thesis using assms by (simp add: hsv_to_rgb_std_def Let_def)
  next
    assume i: "\<lfloor>h * 6\<rfloor> = 5"
    then have "h * 6 - 5 < 1" using f by simp
    then show ?thesis using assms i by (simp add: hsv_to_rgb_std_def Let_def)
  qed
qed

lemma Normalize_Inr:
  assumes "Normalize lo hi c a = Inr n"
  shows "shape n = shape a \<and> bounds_ok (autoscale_None lo hi a)"
proof (cases "autoscale_None lo hi a")
  case (Pair l h)
  then show ?thesis using assms
    by (cases l; cases h) (auto simp add: Normalize_def map_nd_def split: if_splits)
qed

lemma polar_valid:
  assumes "cmap self = Str ''polar''" "shape img = 2 # sp" "length sp = 2 \<or> length sp = 3"
    and "Normalize (vmin self) (vmax self) True img = Inr n"
  shows "valid_input L self img \<and> spatial_shape self img = sp \<and> shape n = shape img"
  using assms Normalize_Inr [OF assms(4)]
  by (auto simp add: valid_input_def ndim_def spatial_shape_def conversions_def)

lemma polar_transform_pixel:
  assumes sel: "cmap self = Str ''polar''" and sh: "shape img = 2 # sp"
    and len: "length sp = 2 \<or> length sp = 3"
    and N: "Normalize (vmin self) (vmax self) True img = Inr n"
    and ix: "in_shape sp jx" "c < 3"
  shows "pixel (transform L self img None None) (jx @ [c]) =
           Inr (clip (comp3 (hsv_to_rgb L (hue (elems n (0 # jx)) (elems n (1 # jx)), 1,
                        scale self * magnitude (elems n (0 # jx)) (elems n (1 # jx)))) c * scale self) 0 1)"
proof -
  from polar_valid [OF sel sh len N, of L]
  have v: "valid_input L self img" and sp: "spatial_shape self img = sp" and sn: "shape n = shape img"
    by simp_all
  obtain raw where D: "dispatch L self (shape img) n = Inr raw"
    using dispatch_valid [OF v sn] by blast
  have "elems raw (jx @ [c]) = comp3 (hsv_to_rgb L (hue (elems n (0 # jx)) (elems n (1 # jx)), 1,
                        scale self * magnitude (elems n (0 # jx)) (elems n (1 # jx)))) c"
    using polar_dispatch_pixel [OF sel sh sn len ix, of L] D by (simp add: pixel_def)
  then show ?thesis
    using transform_plain [OF v N D _ ix(2), of jx] ix(1) sp by simp
qed

lemma norm_unit:
  "Normalize (vmin (config sel scl)) (vmax (config sel scl)) True img_unit
     = Inr (map_nd (\<lambda>x. (clip x 0 1 - 0) / (1 - 0)) img_unit)"
proof -
  have "autoscale_None (vmin (config sel scl)) (vmax (config sel scl)) img_unit = (Some 0, Some 1)"
    by (simp add: config_def img_unit_def eval_bounds)
  then show ?thesis by (rule Normalize_elems) simp
qed

lemma Max_insert_max:
  assumes "finite S"
  shows "Max (insert (max a b) S) = Max (insert (a::real) (insert b S))"
proof (cases "S = {}")
  case True
  then show ?thesis by simp
next
  case False
  then show ?thesis using assms by (simp add: max.assoc)
qed

lemma fold_max_Max: "fold (\<lambda>x m. max m (g x)) xs (a::real) = Max (insert a (g ` set xs))"
proof (induction xs arbitrary: a)
  case Nil
  then show ?case by simp
next
  case (Cons x xs)
  have "Max (insert (max a (g x)) (g ` set xs)) = Max (insert a (insert (g x) (g ` set xs)))"
    by (rule Max_insert_max) simp
  then show ?case by (simp only: fold_simps Cons set_simps image_insert)
qed

lemma indexed_step_elems:
  "elems (indexed_step L img (i, clr) out) (p @ [c]) =
           max (elems out (p @ [c])) (clip (comp4 (from_list L clr (elems img (i # p))) c) 0 1)"
proof -
  have "elems (if ndim img = 4 then slice03 3 (apply_cmap (from_list L clr) (sub0 img i))
               else if ndim img = 3 then slice03 2 (apply_cmap (from_list L clr) (sub0 img i))
               else apply_cmap (from_list L clr) (sub0 img i)) (p @ [c])
        = comp4 (from_list L clr (elems img (i # p))) c"
    by (simp add: slice03_def apply_cmap_def sub0_def)
  then show ?thesis
    by (simp add: indexed_step_def Let_def zip_nd_def map_nd_def)
qed

lemma fold_indexed_elems:
  "elems (fold (indexed_step L img) xs acc) (p @ [c]) =
           fold (\<lambda>x m. max m (clip (comp4 (from_list L (snd x) (elems img (fst x # p))) c) 0 1)) xs
             (elems acc (p @ [c]))"
proof (induction xs arbitrary: acc)
  case Nil
  then show ?case by simp
next
  case (Cons x xs)
  obtain i clr where x: "x = (i, clr)" by (cases x)
  have "elems (fold (indexed_step L img) (x # xs) acc) (p @ [c]) =
        elems (fold (indexed_step L img) xs (indexed_step L img (i, clr) acc)) (p @ [c])"
    by (simp add: x)
  also have "\<dots> = fold (\<lambda>x m. max m (clip (comp4 (from_list L (snd x) (elems img (fst x # p))) c) 0 1)) xs
             (elems (indexed_step L img (i, clr) acc) (p @ [c]))"
    by (rule Cons)
  finally show ?case by (simp add: indexed_step_elems x)
qed

lemma enumerate_image:
  "g ` set (enumerate 0 cs) = (\<lambda>i. g (i, cs ! i)) ` {..<length cs}"
proof -
  have "map g (enumerate 0 cs) = map (\<lambda>i. g (i, cs ! i)) [0..<length cs]"
    by (rule nth_equalityI) (simp_all add: nth_enumerate_eq)
  then have "set (map g (enumerate 0 cs)) = set (map (\<lambda>i. g (i, cs ! i)) [0..<length cs])"
    by simp
  then show ?thesis by (simp add: atLeast0LessThan)
qed

lemma indexed_dispatch_pixel:
  assumes sel: "cmap self = Str ''indexed''" and cols: "colors self = Some cs"
    and sh: "shape n = length cs # sp" and len: "length sp = 2 \<or> length sp = 3"
  shows "pixel (dispatch L self dims n) (jx @ [c]) =
           Inr (Max (insert 0 ((\<lambda>i. clip (comp4 (from_list L (cs ! i) (elems n (i # jx))) c) 0 1) ` {..<length cs})))"
proof -
  obtain z where d: "dispatch L self dims n = Inr (fold (indexed_step L n) (enumerate 0 cs) (zeros z))"
    using sel cols sh len by (auto simp add: dispatch_def indexed_out_def ndim_def)
  have "elems (fold (indexed_step L n) (enumerate 0 cs) (zeros z)) (jx @ [c]) =
      Max (insert 0 ((\<lambda>x. clip (comp4 (from_list L (snd x) (elems n (fst x # jx))) c) 0 1) ` set (enumerate 0 cs)))"
    by (simp only: fold_indexed_elems fold_max_Max) (simp add: zeros_def)
  then show ?thesis
    by (simp add: d pixel_def enumerate_image)
qed

lemma indexed_transform_pixel:
  assumes sel: "cmap self = Str ''indexed''" and cols: "colors self = Some cs"
    and sh: "shape img = length cs # sp" and len: "length sp = 2 \<or> length sp = 3"
    and N: "Normalize (vmin self) (vmax self) True img = Inr n"
    and ix: "in_shape sp jx" "c < 3"
  shows "pixel (transform L self img None None) (jx @ [c]) =
           Inr (clip (Max (insert 0 ((\<lambda>i. clip (comp4 (from_list L (cs ! i) (elems n (i # jx))) c) 0 1)
                                      ` {..<length cs})) * scale self) 0 1)"
proof -
  have sn: "shape n = shape img" and bok: "bounds_ok (autoscale_None (vmin self) (vmax self) img)"
    using Normalize_Inr [OF N] by simp_all
  have v: "valid_input L self img"
    using sel cols sh len bok by (auto simp add: valid_input_def ndim_def)
  have sp: "spatial_shape self img = sp"
    using sel sh by (simp add: spatial_shape_def conversions_def)
  obtain raw where D: "dispatch L self (shape img) n = Inr raw"
    using dispatch_valid [OF v sn] by blast
  have "elems raw (jx @ [c]) =
      Max (insert 0 ((\<lambda>i. clip (comp4 (from_list L (cs ! i) (elems n (i # jx))) c) 0 1) ` {..<length cs}))"
    using indexed_dispatch_pixel [OF sel cols _ len, of n L "shape img" jx c] sn sh D
    by (simp add: pixel_def)
  then show ?thesis
    using transform_plain [OF v N D _ ix(2), of jx] ix(1) sp by simp
qed

section \<open>Shape and range of the output\<close>

text \<open>
  Claim C1 fails as stated, on two inputs of the shape their selector requires: a colormap
  object that is not a \<open>ListedColormap\<close> is refused with the error \<open>Colorization method
  not understood\<close>, and with \<open>vmin\<close> set to 2 on an image whose largest value is 1 the
  normalization refuses a minimum above the maximum. Neither call returns an array.
\<close>

theorem transform_valid_counterexample:
  "transform demo_lib (config (LinearSegmentedColormap grey) 1) img_flat None None = Inl NotUnderstood \<and>
   transform demo_lib ((config (Str ''rgb'') 1)\<lparr>vmin := Some 2\<rparr>) img_rgb None None = Inl ValueError"
proof -
  obtain n where n: "Normalize None None True img_flat = Inr n"
    using Normalize_shape [OF default_bounds_ok] by blast
  have a: "transform demo_lib (config (LinearSegmentedColormap grey) 1) img_flat None None = Inl NotUnderstood"
    using n by (simp add: transform_def checkDims_def dispatch_def config_def)
  have ab: "autoscale_None (Some 2) None img_rgb = (Some 2, Some 1)"
    by (simp add: img_rgb_def eval_bounds)
  have N: "Normalize (Some 2) None True img_rgb = Inl ValueError"
    by (simp add: Normalize_def ab)
  have b: "transform demo_lib ((config (Str ''rgb'') 1)\<lparr>vmin := Some 2\<rparr>) img_rgb None None = Inl ValueError"
    by (simp add: transform_def checkDims_def config_def conversions_def dims0_def img_rgb_def [THEN arg_cong, of shape] N)
  show ?thesis using a b by blast
qed

text \<open>
  Claim C1, amended. For every input whose selector is one of the schemes rgb, hsv, polar,
  indexed, the name of a colormap known to the library or a \<open>ListedColormap\<close> object, with
  an image of the shape that the scheme requires, normalization bounds in force whose
  minimum does not exceed the maximum, and an optional mask and background of the spatial
  shape, \<open>transform\<close> returns an array whose shape is the spatial shape of the input
  followed by an axis of exactly 3, and every value of the array lies in \<open>[0, 1]\<close>.
\<close>

theorem transform_shape_and_range:
  assumes "valid_input L self img" "valid_aux self img msk" "valid_aux self img background"
  shows "\<exists>out. transform L self img msk background = Inr out \<and>
           shape out = spatial_shape self img @ [3] \<and>
           (\<forall>ix. 0 \<le> elems out ix \<and> elems out ix \<le> 1)"
proof -
  have "bounds_ok (autoscale_None (vmin self) (vmax self) img)"
    using assms(1) by (simp add: valid_input_def)
  then obtain n where n: "Normalize (vmin self) (vmax self) True img = Inr n" "shape n = shape img"
    using Normalize_shape by blast
  obtain raw where raw: "dispatch L self (shape img) n = Inr raw"
    using dispatch_valid [OF assms(1) n(2)] by blast
  show ?thesis
    using transform_pixels [OF assms n(1) raw] by blast
qed

theorem transform_shape_and_range_witness:
  "valid_input demo_lib (config (Str ''rgb'') 1) img_rgb \<and>
   valid_aux (config (Str ''rgb'') 1) img_rgb (Some mask_half) \<and>
   valid_aux (config (Str ''rgb'') 1) img_rgb (Some bg_quarter) \<and>
   shape_of (transform demo_lib (config (Str ''rgb'') 1) img_rgb (Some mask_half) (Some bg_quarter)) = Inr [1, 2, 3]"
proof -
  have v: "valid_input demo_lib (config (Str ''rgb'') 1) img_rgb"
    by (simp add: valid_input_def config_def img_rgb_def ndim_def eval_bounds)
  have m: "valid_aux (config (Str ''rgb'') 1) img_rgb (Some mask_half)"
    by (simp add: valid_aux_def spatial_shape_def config_def conversions_def img_rgb_def mask_half_def)
  have b: "valid_aux (config (Str ''rgb'') 1) img_rgb (Some bg_quarter)"
    by (simp add: valid_aux_def spatial_shape_def config_def conversions_def img_rgb_def bg_quarter_def)
  have s: "spatial_shape (config (Str ''rgb'') 1) img_rgb = [1, 2]"
    by (simp add: spatial_shape_def config_def conversions_def img_rgb_def)
  show ?thesis
    using transform_shape_and_range [OF v m b] v m b s by (auto simp add: shape_of_def)
qed

section \<open>The rgb scheme on an already normalized image\<close>

text \<open>
  Claim C5 fails as stated: the values of \<open>img_low\<close> lie in \<open>[0, 1]\<close>, but its largest
  value is one half, so the normalization that runs first stretches the image and the
  value one quarter of channel 1 comes out as one half.
\<close>

theorem rgb_identity_counterexample:
  "elems img_low [1, 0, 0] = 1 / 4 \<and>
   pixel (transform demo_lib (config (Str ''rgb'') 1) img_low None None) [0, 0, 1] = Inr (1 / 2)"
proof -
  let ?img = "\<lparr>shape = [3, 1, 1], elems = (\<lambda>ix. if ix = [1, 0, 0] then 1 / 4 else if ix = [2, 0, 0] then 1 / 2 else (0::real))\<rparr>"
  let ?cfg = "config (Str ''rgb'') 1"
  have ab: "autoscale_None (vmin ?cfg) (vmax ?cfg) ?img = (Some 0, Some (1 / 2))"
    by (simp add: config_def eval_bounds)
  have "pixel (transform demo_lib ?cfg ?img None None) [0, 0, 1] =
           Inr (clip ((clip (elems ?img [1, 0, 0]) 0 (1 / 2) - 0) / (1 / 2 - 0) * scale ?cfg) 0 1)"
    by (rule rgb_pixel [where X = 1 and Y = 1, OF _ _ ab]) (simp_all add: config_def)
  then show ?thesis by (simp add: clip_def config_def img_low_def)
qed

text \<open>
  Claim C5, amended. For every 3-by-X-by-Y input whose values lie in \<open>[0, 1]\<close> and whose
  normalization bounds in force are 0 and 1 (\<open>vmin\<close> and \<open>vmax\<close> set to 0 and 1, or left
  unset on an array whose observed minimum is 0 and maximum is 1), \<open>transform\<close> with the
  rgb scheme and \<open>scale = 1\<close> returns exactly the same values rearranged to shape
  X-by-Y-by-3, channel 0 to R, 1 to G and 2 to B.
\<close>

theorem rgb_identity_normalized:
  assumes "cmap self = Str ''rgb''" "scale self = 1" "shape img = [3, X, Y]"
    and "autoscale_None (vmin self) (vmax self) img = (Some 0, Some 1)"
    and "\<forall>ix. in_shape (shape img) ix \<longrightarrow> 0 \<le> elems img ix \<and> elems img ix \<le> 1"
    and "i < X" "j < Y" "c < 3"
  shows "shape_of (transform L self img None None) = Inr [X, Y, 3] \<and>
         pixel (transform L self img None None) [i, j, c] = Inr (elems img [c, i, j])"
proof -
  have v: "valid_input L self img"
    using assms(1,3,4) by (simp add: valid_input_def ndim_def)
  have s: "shape_of (transform L self img None None) = Inr [X, Y, 3]"
    using transform_shape_plain [OF v] assms(1,3) by (simp add: spatial_shape_def conversions_def)
  have "in_shape (shape img) [c, i, j]" using assms(3,6,7,8) by (simp add: in_shape3)
  then have r: "0 \<le> elems img [c, i, j] \<and> elems img [c, i, j] \<le> 1" using assms(5) by blast
  have "pixel (transform L self img None None) [i, j, c] =
           Inr (clip ((clip (elems img [c, i, j]) 0 1 - 0) / (1 - 0) * scale self) 0 1)"
    by (rule rgb_pixel [OF assms(1,3,4) _ assms(6-8)]) simp
  then have "pixel (transform L self img None None) [i, j, c] = Inr (elems img [c, i, j])"
    using r assms(2) by (simp add: clip_id clip_clip)
  with s show ?thesis by simp
qed

theorem rgb_identity_normalized_witness:
  "shape_of (transform demo_lib (config (Str ''rgb'') 1) img_rgb None None) = Inr [1, 2, 3] \<and>
   pixel (transform demo_lib (config (Str ''rgb'') 1) img_rgb None None) [0, 1, 1] = Inr (1 / 2)"
proof -
  have ab: "autoscale_None (vmin (config (Str ''rgb'') 1)) (vmax (config (Str ''rgb'') 1)) img_rgb = (Some 0, Some 1)"
    by (simp add: config_def img_rgb_def eval_bounds)
  have r: "\<forall>ix. in_shape (shape img_rgb) ix \<longrightarrow> 0 \<le> elems img_rgb ix \<and> elems img_rgb ix \<le> 1"
    by (simp add: img_rgb_def)
  from rgb_identity_normalized [OF _ _ _ ab r, of 1 2 0 1 1 demo_lib]
  show ?thesis by (simp add: config_def img_rgb_def)
qed

section \<open>The order of blending\<close>



section \<open>Preparation of the background\<close>

text \<open>
  Claim C2. \<open>transform\<close> prepares a supplied background with \<open>_prepareMask\<close>, which only
  clips below at 0, and never calls \<open>_prepareBackground\<close>, which would rescale it by its
  minimum and maximum. On the all-zero image with the background \<open>bg_ramp\<close>, whose values
  are 0 and one half, the output pixel over the value one half is one half; the normalized
  background would be 1 there.
\<close>

theorem background_not_normalized:
  "pixel (transform demo_lib (config (Str ''rgb'') 1) img_zero None (Some bg_ramp)) [0, 1, 0] = Inr (1 / 2) \<and>
   pixel (prepareBackground bg_ramp) [0, 1] = Inr 1 \<and>
   elems (prepareMask bg_ramp) [0, 1] = 1 / 2"
proof -
  let ?cfg = "config (Str ''rgb'') 1"
  have v: "valid_input demo_lib ?cfg img_zero"
    by (simp add: valid_input_def config_def img_zero_def ndim_def default_bounds_ok)
  have sp: "spatial_shape ?cfg img_zero = [1, 2]"
    by (simp add: spatial_shape_def config_def conversions_def img_zero_def)
  have vn: "valid_aux ?cfg img_zero None" by (simp add: valid_aux_def)
  have vb: "valid_aux ?cfg img_zero (Some bg_ramp)" by (simp add: valid_aux_def sp bg_ramp_def)
  have N: "Normalize (vmin ?cfg) (vmax ?cfg) True img_zero = Inr (map_nd (\<lambda>x. 0) img_zero)"
    by (simp add: Normalize_def config_def img_zero_def eval_bounds)
  have D: "dispatch demo_lib ?cfg (shape img_zero) (map_nd (\<lambda>x. 0) img_zero)
             = Inr (transpose_nd (map_nd (\<lambda>x. 0) img_zero) [1, 2, 0])"
    by (simp add: dispatch_def config_def rgb_out_def ndim_def map_nd_def img_zero_def)
  have ix: "in_shape (spatial_shape ?cfg img_zero) [0, 1]" by (simp add: sp in_shape2)
  from transform_pixel [OF v vn vb N D ix, of 0]
  have a: "pixel (transform demo_lib ?cfg img_zero None (Some bg_ramp)) [0, 1, 0] = Inr (1 / 2)"
    by (simp add: transpose_120' map_nd_def clip_def bg_ramp_def)
  have b: "pixel (prepareBackground bg_ramp) [0, 1] = Inr 1"
    by (simp add: prepareBackground_def Normalize_def bg_ramp_def eval_bounds pixel_def map_nd_def)
  have c: "elems (prepareMask bg_ramp) [0, 1] = 1 / 2"
    by (simp add: prepareMask_def map_nd_def bg_ramp_def)
  show ?thesis using a b c by simp
qed

section \<open>Colormap objects that are not listed colormaps\<close>

text \<open>
  Claim C8. A colormap object that is not a \<open>ListedColormap\<close> (a
  \<open>LinearSegmentedColormap\<close>, the class of most standard colormaps) is a colormap object,
  yet with the default normalization \<open>transform\<close> refuses it with the error
  \<open>Colorization method not understood\<close> instead of looking the image up in it.
\<close>

theorem segmented_colormap_refused:
  assumes "cmap self = LinearSegmentedColormap f" "vmin self = None" "vmax self = None"
  shows "transform L self img None None = Inl NotUnderstood"
proof -
  obtain n where n: "Normalize None None True img = Inr n"
    using Normalize_shape [OF default_bounds_ok] by blast
  show ?thesis
    using assms n by (simp add: transform_def checkDims_def dispatch_def)
qed

theorem segmented_colormap_refused_witness:
  "transform demo_lib (config (LinearSegmentedColormap grey) 1) img_flat None None = Inl NotUnderstood"
  using segmented_colormap_refused [of "config (LinearSegmentedColormap grey) 1" grey demo_lib img_flat]
  by (simp add: config_def)

section \<open>The value channel of the polar scheme\<close>

text \<open>
  Claim C3 fails as stated: on the single pixel with channels 1 and 0 and a brightness
  factor of 2, the value channel of the array handed to the conversion is 2, above 1, and
  the standard conversion returns the red component 2 before the later clip.
\<close>

theorem polar_value_counterexample:
  "pixel (polar_fed (config (Str ''polar'') 2) img_unit) [0, 0, 2] = Inr 2 \<and>
   pixel (raw_colorized demo_lib (config (Str ''polar'') 2) img_unit) [0, 0, 0] = Inr 2"
proof -
  let ?n = "map_nd (\<lambda>x. (clip x 0 1 - 0) / (1 - 0)) img_unit"
  let ?cfg = "config (Str ''polar'') 2"
  have N: "Normalize None None True img_unit = Inr ?n"
    using norm_unit [of "Str ''polar''" 2] by (simp add: config_def)
  have n0: "elems ?n [0, 0, 0] = 1" and n1: "elems ?n [1, 0, 0] = 0"
    by (simp_all add: map_nd_def img_unit_def clip_def)
  have a: "elems (polar_hsv 2 (shape img_unit) ?n) [0, 0, 2] = 2"
    by (simp only: polar_hsv_elems n0 n1) (simp add: magnitude_def)
  have "pixel (dispatch demo_lib ?cfg (shape img_unit) ?n) ([0, 0] @ [0]) =
          Inr (comp3 (hsv_to_rgb demo_lib (hue (elems ?n (0 # [0, 0])) (elems ?n (1 # [0, 0])), 1,
                 scale ?cfg * magnitude (elems ?n (0 # [0, 0])) (elems ?n (1 # [0, 0])))) 0)"
    by (rule polar_dispatch_pixel [where sp = "[1, 1]"])
       (simp_all add: config_def img_unit_def map_nd_def in_shape2)
  then have b: "pixel (dispatch demo_lib ?cfg (shape img_unit) ?n) [0, 0, 0] = Inr 2"
    by (simp only: append.simps n0 n1)
       (simp add: hue_reference magnitude_def demo_lib_def std_reference config_def)
  show ?thesis using a b by (simp add: polar_fed_def raw_colorized_def config_def N pixel_def)
qed

text \<open>
  Claim C3, amended. For every polar-scheme input pixel, the triple handed to the HSV to RGB
  conversion has saturation 1 and the value channel equal to the magnitude
  \<open>sqrt (c0\<^sup>2 + c1\<^sup>2)\<close> of the normalized channels multiplied by the brightness factor,
  without any clip; the clip to \<open>[0, 1]\<close> is applied only after the conversion, to the
  converted output multiplied by the brightness factor.
\<close>

theorem polar_value_unclipped:
  assumes "cmap self = Str ''polar''" "shape img = 2 # sp" "length sp = 2 \<or> length sp = 3"
    and "Normalize (vmin self) (vmax self) True img = Inr n"
    and "in_shape sp jx" "c < 3"
  shows "pixel (dispatch L self (shape img) n) (jx @ [c]) =
           Inr (comp3 (hsv_to_rgb L (hue (elems n (0 # jx)) (elems n (1 # jx)), 1,
                  scale self * sqrt ((elems n (0 # jx))\<^sup>2 + (elems n (1 # jx))\<^sup>2))) c) \<and>
         pixel (transform L self img None None) (jx @ [c]) =
           Inr (clip (comp3 (hsv_to_rgb L (hue (elems n (0 # jx)) (elems n (1 # jx)), 1,
                  scale self * sqrt ((elems n (0 # jx))\<^sup>2 + (elems n (1 # jx))\<^sup>2))) c * scale self) 0 1)"
proof -
  have sn: "shape n = shape img"
    using polar_valid [OF assms(1-4), of L] by simp
  show ?thesis
    using polar_dispatch_pixel [OF assms(1,2) sn assms(3,5,6), of L]
      polar_transform_pixel [OF assms, of L]
    by (simp add: magnitude_def)
qed

theorem polar_value_unclipped_witness:
  "pixel (dispatch demo_lib (config (Str ''polar'') 2) (shape img_unit)
            (map_nd (\<lambda>x. (clip x 0 1 - 0) / (1 - 0)) img_unit)) [0, 0, 0] = Inr 2 \<and>
   pixel (transform demo_lib (config (Str ''polar'') 2) img_unit None None) [0, 0, 0] = Inr 1"
proof -
  let ?n = "map_nd (\<lambda>x. (clip x 0 1 - 0) / (1 - 0)) img_unit"
  let ?cfg = "config (Str ''polar'') 2"
  have n0: "elems ?n [0, 0, 0] = 1" and n1: "elems ?n [1, 0, 0] = 0"
    by (simp_all add: map_nd_def img_unit_def clip_def)
  have sel: "cmap ?cfg = Str ''polar''" by (simp add: config_def)
  have sh: "shape img_unit = 2 # [1, 1]" by (simp add: img_unit_def)
  have ix: "in_shape [1, 1] [0, 0]" by (simp add: in_shape2)
  from polar_value_unclipped [OF sel sh _ norm_unit ix, of 0 demo_lib]
  show ?thesis
    by (simp only: append.simps n0 n1)
       (simp add: hue_reference demo_lib_def std_reference config_def clip_def)
qed

section \<open>The reference direction of the polar scheme\<close>

text \<open>
  Claim C4 fails as stated: in \<open>img_two\<close> the first pixel has channel 0 equal to 0 and
  channel 1 equal to \<open>-1\<close>, of magnitude 1 with brightness factor 1, but after the
  normalization by the observed minimum \<open>-2\<close> and maximum 0 its hue is not 0, and with the
  standard conversion its blue component is not 0, so the pixel is not red.
\<close>

theorem polar_reference_counterexample:
  "elems img_two [0, 0, 0] = 0 \<and> elems img_two [1, 0, 0] = - 1 \<and>
   pixel (polar_fed (config (Str ''polar'') 1) img_two) [0, 0, 0] \<noteq> Inr 0 \<and>
   pixel (transform demo_lib (config (Str ''polar'') 1) img_two None None) [0, 0, 2] \<noteq> Inr 0"
proof -
  let ?n = "map_nd (\<lambda>x. (clip x (- 2) 0 - (- 2)) / (0 - (- 2))) img_two"
  let ?cfg = "config (Str ''polar'') 1"
  have ab: "autoscale_None (vmin ?cfg) (vmax ?cfg) img_two = (Some (- 2), Some 0)"
    by (simp add: config_def img_two_def eval_bounds)
  have N: "Normalize (vmin ?cfg) (vmax ?cfg) True img_two = Inr ?n"
    by (rule Normalize_elems [OF ab]) simp
  have N': "Normalize None None True img_two = Inr ?n"
    using N by (simp add: config_def)
  have n0: "elems ?n [0, 0, 0] = 1" and n1: "elems ?n [1, 0, 0] = 1 / 2"
    by (simp_all add: map_nd_def img_two_def clip_def)
  have h: "3 / 4 < hue 1 (1 / 2) \<and> hue 1 (1 / 2) < 1"
    by (rule hue_off_axis) simp_all
  have a: "elems (polar_hsv 1 (shape img_two) ?n) [0, 0, 0] \<noteq> 0"
    using h by (simp only: polar_hsv_elems n0 n1) simp
  have m: "0 < magnitude 1 (1 / 2)" by (simp add: magnitude_def power2_eq_square)
  have "pixel (transform demo_lib ?cfg img_two None None) ([0, 0] @ [2]) =
           Inr (clip (comp3 (hsv_to_rgb demo_lib (hue (elems ?n (0 # [0, 0])) (elems ?n (1 # [0, 0])), 1,
                        scale ?cfg * magnitude (elems ?n (0 # [0, 0])) (elems ?n (1 # [0, 0])))) 2 * scale ?cfg) 0 1)"
    by (rule polar_transform_pixel [where sp = "[1, 2]", OF _ _ _ N])
       (simp_all add: config_def img_two_def in_shape2)
  then have e: "pixel (transform demo_lib ?cfg img_two None None) [0, 0, 2] =
           Inr (clip (comp3 (hsv_to_rgb_std (hue 1 (1 / 2), 1, magnitude 1 (1 / 2))) 2) 0 1)"
    by (simp only: append.simps n0 n1) (simp add: demo_lib_def config_def)
  have "0 < comp3 (hsv_to_rgb_std (hue 1 (1 / 2), 1, magnitude 1 (1 / 2))) 2"
    using std_blue_pos h m by blast
  then have "clip (comp3 (hsv_to_rgb_std (hue 1 (1 / 2), 1, magnitude 1 (1 / 2))) 2) 0 1 \<noteq> 0"
    by (simp add: clip_def)
  then have b: "pixel (transform demo_lib ?cfg img_two None None) [0, 0, 2] \<noteq> Inr 0"
    using e by simp
  have a': "pixel (polar_fed ?cfg img_two) [0, 0, 0] \<noteq> Inr 0"
    using a by (simp add: polar_fed_def config_def N' pixel_def)
  have r: "elems img_two [0, 0, 0] = 0 \<and> elems img_two [1, 0, 0] = - 1"
    by (simp add: img_two_def)
  show ?thesis using r a' b by blast
qed

text \<open>
  Claim C4, amended. For every polar-scheme input pixel with channel 0 equal to 0 and
  channel 1 negative, where channel 1 is at or below the normalization minimum in force
  and that minimum is below 0 (so that the pixel normalizes to channel 1 equal to 0 and
  channel 0 positive), and whose normalized magnitude is at least 1/scale, the triple handed
  to the conversion has hue 0 and saturation 1, and with the standard conversion
  \<open>transform\<close> yields pure red for that pixel.
\<close>

theorem polar_reference_red:
  assumes sel: "cmap self = Str ''polar''" and sh: "shape img = 2 # sp"
    and len: "length sp = 2 \<or> length sp = 3"
    and ab: "autoscale_None (vmin self) (vmax self) img = (Some l, Some h)" and lh: "l < h"
    and N: "Normalize (vmin self) (vmax self) True img = Inr n"
    and ix: "in_shape sp jx" "c < 3"
    and c0: "elems img (0 # jx) = 0" and c1: "elems img (1 # jx) < 0"
    and low: "elems img (1 # jx) \<le> l" and lneg: "l < 0"
    and mag: "1 \<le> scale self * magnitude (elems n (0 # jx)) (elems n (1 # jx))"
  shows "hue (elems n (0 # jx)) (elems n (1 # jx)) = 0 \<and>
         pixel (dispatch L self (shape img) n) (jx @ [c]) =
           Inr (comp3 (hsv_to_rgb L (0, 1, scale self * magnitude (elems n (0 # jx)) (elems n (1 # jx)))) c) \<and>
         (hsv_to_rgb L = hsv_to_rgb_std \<longrightarrow>
            pixel (transform L self img None None) (jx @ [c]) = Inr (if c = 0 then 1 else 0))"
proof -
  have n: "n = map_nd (\<lambda>x. (clip x l h - l) / (h - l)) img"
    using Normalize_elems [OF ab lh] N by simp
  have n1: "elems n (1 # jx) = 0"
    using low lh by (simp add: n map_nd_def clip_def max_def min_def)
  have n0: "elems n (0 # jx) = (min h 0 - l) / (h - l)"
    using lneg by (simp add: n map_nd_def clip_def c0 max_def)
  have pos: "0 < elems n (0 # jx)" using lh lneg by (simp add: n0)
  have le1: "elems n (0 # jx) \<le> 1" using lh lneg by (simp add: n0)
  have hu: "hue (elems n (0 # jx)) (elems n (1 # jx)) = 0"
    by (simp only: n1 hue_reference [OF pos])
  have mg: "magnitude (elems n (0 # jx)) (elems n (1 # jx)) = elems n (0 # jx)"
    by (simp only: n1 magnitude_axis [OF less_imp_le [OF pos]])
  have sn: "shape n = shape img"
    using polar_valid [OF sel sh len N, of L] by simp
  have d: "pixel (dispatch L self (shape img) n) (jx @ [c]) =
           Inr (comp3 (hsv_to_rgb L (0, 1, scale self * magnitude (elems n (0 # jx)) (elems n (1 # jx)))) c)"
    using polar_dispatch_pixel [OF sel sh sn len ix, of L] by (simp only: hu)
  have t: "pixel (transform L self img None None) (jx @ [c]) =
           Inr (clip (comp3 (hsv_to_rgb L (0, 1, scale self * elems n (0 # jx))) c * scale self) 0 1)"
    using polar_transform_pixel [OF sel sh len N ix, of L] by (simp only: hu mg)
  have v1: "1 \<le> scale self * elems n (0 # jx)" using mag by (simp only: mg)
  have s1: "1 \<le> scale self"
  proof (rule ccontr)
    assume "\<not> 1 \<le> scale self"
    then have "scale self < 1" by simp
    then have "scale self * elems n (0 # jx) < 1 * elems n (0 # jx)"
      using pos by (simp only: mult_strict_right_mono)
    with le1 v1 show False by simp
  qed
  have big: "1 \<le> scale self * elems n (0 # jx) * scale self"
    using v1 s1 by (metis mult_mono' mult_1 zero_le_one)
  have red: "pixel (transform L self img None None) (jx @ [c]) = Inr (if c = 0 then 1 else 0)"
    if "hsv_to_rgb L = hsv_to_rgb_std"
    using t big that by (simp add: std_reference clip_def)
  show ?thesis using hu d red by blast
qed

theorem polar_reference_red_witness:
  "elems img_ref [0, 0, 0] = 0 \<and> elems img_ref [1, 0, 0] < 0 \<and>
   pixel (transform demo_lib (config (Str ''polar'') 1) img_ref None None) [0, 0, 0] = Inr 1 \<and>
   pixel (transform demo_lib (config (Str ''polar'') 1) img_ref None None) [0, 0, 1] = Inr 0 \<and>
   pixel (transform demo_lib (config (Str ''polar'') 1) img_ref None None) [0, 0, 2] = Inr 0"
proof -
  let ?n = "map_nd (\<lambda>x. (clip x (- 1) 0 - (- 1)) / (0 - (- 1))) img_ref"
  let ?cfg = "config (Str ''polar'') 1"
  have ab: "autoscale_None (vmin ?cfg) (vmax ?cfg) img_ref = (Some (- 1), Some 0)"
    by (simp add: config_def img_ref_def eval_bounds)
  have N: "Normalize (vmin ?cfg) (vmax ?cfg) True img_ref = Inr ?n"
    by (rule Normalize_elems [OF ab]) simp
  have sel: "cmap ?cfg = Str ''polar''" by (simp add: config_def)
  have sh: "shape img_ref = 2 # [1, 1]" by (simp add: img_ref_def)
  have ix: "in_shape [1, 1] [0, 0]" by (simp add: in_shape2)
  have c0: "elems img_ref (0 # [0, 0]) = 0" and c1: "elems img_ref (1 # [0, 0]) < 0"
    and low: "elems img_ref (1 # [0, 0]) \<le> - 1"
    by (simp_all add: img_ref_def)
  have mag: "1 \<le> scale ?cfg * magnitude (elems ?n (0 # [0, 0])) (elems ?n (1 # [0, 0]))"
    by (simp add: config_def map_nd_def img_ref_def clip_def magnitude_def)
  have std: "hsv_to_rgb demo_lib = hsv_to_rgb_std" by (simp add: demo_lib_def)
  have len: "length [1, 1 :: nat] = 2 \<or> length [1, 1 :: nat] = 3" by simp
  have lh: "(- 1 :: real) < 0" by simp
  have r: "pixel (transform demo_lib ?cfg img_ref None None) ([0, 0] @ [c]) = Inr (if c = 0 then 1 else 0)"
    if "c < 3" for c
    using polar_reference_red [OF sel sh len ab lh N ix that c0 c1 low lh mag, of demo_lib] std by blast
  have "pixel (transform demo_lib ?cfg img_ref None None) [0, 0, 0] = Inr 1"
    "pixel (transform demo_lib ?cfg img_ref None None) [0, 0, 1] = Inr 0"
    "pixel (transform demo_lib ?cfg img_ref None None) [0, 0, 2] = Inr 0"
    using r [of 0] r [of 1] r [of 2] by simp_all
  then show ?thesis using c0 c1 by simp
qed

section \<open>The brightness factor of the polar scheme\<close>

text \<open>
  Claim C10. For every polar-scheme input pixel the brightness factor is applied twice: the
  magnitude is multiplied by it before the HSV to RGB conversion, and the converted output
  is multiplied by it again before the clip to \<open>[0, 1]\<close>. With the standard conversion,
  which is linear in the value channel at saturation 1, the output is the clip of the
  square of the factor times the colour at brightness 1; for a positive factor other than 1
  this differs from the clip of a single multiplication wherever the colour component is
  positive and the two products are not both saturated.
\<close>

theorem polar_scale_twice:
  assumes "cmap self = Str ''polar''" "shape img = 2 # sp" "length sp = 2 \<or> length sp = 3"
    and "Normalize (vmin self) (vmax self) True img = Inr n"
    and "in_shape sp jx" "c < 3"
    and "th = hue (elems n (0 # jx)) (elems n (1 # jx))"
    and "rho = magnitude (elems n (0 # jx)) (elems n (1 # jx))"
  shows "pixel (transform L self img None None) (jx @ [c]) =
           Inr (clip (comp3 (hsv_to_rgb L (th, 1, scale self * rho)) c * scale self) 0 1) \<and>
         (hsv_to_rgb L = hsv_to_rgb_std \<longrightarrow>
            pixel (transform L self img None None) (jx @ [c]) =
              Inr (clip (scale self * scale self * (rho * comp3 (hsv_to_rgb_std (th, 1, 1)) c)) 0 1)) \<and>
         (scale self \<noteq> 1 \<and> 0 < scale self \<and> 0 < rho * comp3 (hsv_to_rgb_std (th, 1, 1)) c \<and>
          min (scale self * scale self * (rho * comp3 (hsv_to_rgb_std (th, 1, 1)) c))
              (scale self * (rho * comp3 (hsv_to_rgb_std (th, 1, 1)) c)) < 1 \<longrightarrow>
            clip (scale self * scale self * (rho * comp3 (hsv_to_rgb_std (th, 1, 1)) c)) 0 1 \<noteq>
            clip (scale self * (rho * comp3 (hsv_to_rgb_std (th, 1, 1)) c)) 0 1)"
proof -
  let ?b = "rho * comp3 (hsv_to_rgb_std (th, 1, 1)) c"
  have t: "pixel (transform L self img None None) (jx @ [c]) =
           Inr (clip (comp3 (hsv_to_rgb L (th, 1, scale self * rho)) c * scale self) 0 1)"
    using polar_transform_pixel [OF assms(1-6), of L] by (simp only: assms(7,8))
  have s: "pixel (transform L self img None None) (jx @ [c]) = Inr (clip (scale self * scale self * ?b) 0 1)"
    if "hsv_to_rgb L = hsv_to_rgb_std"
  proof -
    have "comp3 (hsv_to_rgb_std (th, 1, scale self * rho)) c * scale self = scale self * scale self * ?b"
      by (simp only: std_linear [of th "scale self * rho" c]) (simp add: algebra_simps)
    then show ?thesis using t that by (simp only:)
  qed
  have gen: "clip (s * s * b) 0 1 \<noteq> clip (s * b) 0 1"
    if h: "s \<noteq> 1 \<and> 0 < s \<and> 0 < b \<and> min (s * s * b) (s * b) < 1" for s b :: real
  proof -
    have x: "0 \<le> s * s * b" using h by simp
    have y: "0 \<le> s * b" using h by simp
    have "s * s * b \<noteq> s * b" using h by simp
    then show ?thesis using clip_neq_iff [OF x y] h by blast
  qed
  have d: "clip (scale self * scale self * ?b) 0 1 \<noteq> clip (scale self * ?b) 0 1"
    if "scale self \<noteq> 1 \<and> 0 < scale self \<and> 0 < ?b \<and> min (scale self * scale self * ?b) (scale self * ?b) < 1"
    using that by (rule gen)
  show ?thesis using t s d by blast
qed

theorem polar_scale_twice_witness:
  "pixel (transform demo_lib (config (Str ''polar'') (1 / 2)) img_unit None None) [0, 0, 0] = Inr (1 / 4) \<and>
   clip (1 / 2 * (magnitude 1 0 * comp3 (hsv_to_rgb_std (hue 1 0, 1, 1)) 0)) 0 1 = 1 / 2"
proof -
  let ?n = "map_nd (\<lambda>x. (clip x 0 1 - 0) / (1 - 0)) img_unit"
  let ?cfg = "config (Str ''polar'') (1 / 2)"
  have n0: "elems ?n (0 # [0, 0]) = 1" and n1: "elems ?n (1 # [0, 0]) = 0"
    by (simp_all add: map_nd_def img_unit_def clip_def)
  have sel: "cmap ?cfg = Str ''polar''" by (simp add: config_def)
  have sh: "shape img_unit = 2 # [1, 1]" by (simp add: img_unit_def)
  have ix: "in_shape [1, 1] [0, 0]" by (simp add: in_shape2)
  have len: "length [1, 1 :: nat] = 2 \<or> length [1, 1 :: nat] = 3" by simp
  have th: "0 = hue (elems ?n (0 # [0, 0])) (elems ?n (1 # [0, 0]))"
    by (simp only: n0 n1) (simp add: hue_reference)
  have rho: "1 = magnitude (elems ?n (0 # [0, 0])) (elems ?n (1 # [0, 0]))"
    by (simp only: n0 n1) (simp add: magnitude_def)
  have std: "hsv_to_rgb demo_lib = hsv_to_rgb_std" by (simp add: demo_lib_def)
  have c: "(0::nat) < 3" by simp
  from polar_scale_twice [OF sel sh len norm_unit ix c th rho, of demo_lib] std
  have "pixel (transform demo_lib ?cfg img_unit None None) ([0, 0] @ [0]) =
              Inr (clip (scale ?cfg * scale ?cfg * (1 * comp3 (hsv_to_rgb_std (0, 1, 1)) 0)) 0 1)"
    by blast
  then have a: "pixel (transform demo_lib ?cfg img_unit None None) [0, 0, 0] = Inr (1 / 4)"
    by (simp add: std_reference config_def clip_def)
  have b: "clip (1 / 2 * (magnitude 1 0 * comp3 (hsv_to_rgb_std (hue 1 0, 1, 1)) 0)) 0 1 = 1 / 2"
    by (simp add: hue_reference magnitude_def std_reference clip_def)
  show ?thesis using a b by blast
qed

section \<open>The indexed scheme\<close>

text \<open>
  Claim C6 fails as stated: the first pixel of \<open>img_bleed\<close> is nonzero in channel 0 only,
  and the red ramp of channel 0 has no green at its value, but the normalization by the
  observed minimum \<open>-1\<close> and maximum 1 maps the zero of channel 1 to one half, so the
  green ramp of channel 1 contributes the green component 128/255 to the output.
\<close>

theorem indexed_bleed_counterexample:
  "elems img_bleed [0, 0, 0] = 1 \<and> elems img_bleed [1, 0, 0] = 0 \<and>
   comp4 (from_list demo_lib (red_green ! 0) (elems img_bleed [0, 0, 0])) 1 = 0 \<and>
   pixel (transform demo_lib ((config (Str ''indexed'') 1)\<lparr>colors := Some red_green\<rparr>) img_bleed None None) [0, 0, 1]
     = Inr (128 / 255)"
proof -
  let ?cfg = "(config (Str ''indexed'') 1)\<lparr>colors := Some red_green\<rparr>"
  let ?n = "map_nd (\<lambda>x. (clip x (- 1) 1 - (- 1)) / (1 - (- 1))) img_bleed"
  have ab: "autoscale_None (vmin ?cfg) (vmax ?cfg) img_bleed = (Some (- 1), Some 1)"
    by (simp add: config_def img_bleed_def eval_bounds)
  have N: "Normalize (vmin ?cfg) (vmax ?cfg) True img_bleed = Inr ?n"
    by (rule Normalize_elems [OF ab]) simp
  have sel: "cmap ?cfg = Str ''indexed''" and cols: "colors ?cfg = Some red_green"
    by (simp_all add: config_def)
  have sh: "shape img_bleed = length red_green # [1, 2]" by (simp add: img_bleed_def red_green_def)
  have len: "length [1, 2 :: nat] = 2 \<or> length [1, 2 :: nat] = 3" by simp
  have ix: "in_shape [1, 2] [0, 0]" by (simp add: in_shape2)
  have c: "(1::nat) < 3" by simp
  have nv: "elems ?n (0 # [0, 0]) = 1" "elems ?n (1 # [0, 0]) = 1 / 2"
    by (simp_all add: map_nd_def img_bleed_def clip_def)
  have l: "{..<length red_green} = {0, 1}" by (auto simp add: red_green_def less_Suc_eq)
  have r0: "clip (comp4 (from_list demo_lib (red_green ! 0) 1) 1) 0 1 = 0"
    by (simp add: demo_lib_def linear_ramp_def red_green_def clip_def)
  have r1: "clip (comp4 (from_list demo_lib (red_green ! 1) (1 / 2)) 1) 0 1 = 128 / 255"
    by (simp add: demo_lib_def linear_ramp_def red_green_def clip_def)
  have "pixel (transform demo_lib ?cfg img_bleed None None) ([0, 0] @ [1]) =
          Inr (clip (Max (insert 0 ((\<lambda>i. clip (comp4 (from_list demo_lib (red_green ! i) (elems ?n (i # [0, 0]))) 1) 0 1)
                                      ` {..<length red_green})) * scale ?cfg) 0 1)"
    by (rule indexed_transform_pixel [OF sel cols sh len N ix c])
  also have "(\<lambda>i. clip (comp4 (from_list demo_lib (red_green ! i) (elems ?n (i # [0, 0]))) 1) 0 1)
                ` {..<length red_green} = {0, 128 / 255}"
    by (simp only: l image_insert image_empty nv r0 r1)
  finally have p: "pixel (transform demo_lib ?cfg img_bleed None None) [0, 0, 1] = Inr (128 / 255)"
    by (simp add: config_def clip_def)
  have a: "elems img_bleed [0, 0, 0] = 1 \<and> elems img_bleed [1, 0, 0] = 0"
    by (simp add: img_bleed_def)
  have b: "comp4 (from_list demo_lib (red_green ! 0) (elems img_bleed [0, 0, 0])) 1 = 0"
    by (simp add: img_bleed_def demo_lib_def linear_ramp_def red_green_def)
  show ?thesis using a b p by blast
qed

text \<open>
  Claim C6, amended. For every indexed-scheme input with as many channels as colours, the
  colorized output at each pixel equals the per-component maximum, over all channels \<open>i\<close>,
  of the normalized value of channel \<open>i\<close> mapped through the ramp from black to colour
  \<open>i\<close> (whose components lie in \<open>[0, 1]\<close>), and \<open>transform\<close> returns it multiplied by
  the brightness factor and clipped. In particular, at a pixel where every channel but one
  normalizes to zero, and ramps map zero to black, the output is that channel's ramped
  colour alone.
\<close>

theorem indexed_maximum:
  assumes sel: "cmap self = Str ''indexed''" and cols: "colors self = Some cs"
    and sh: "shape img = length cs # sp" and len: "length sp = 2 \<or> length sp = 3"
    and N: "Normalize (vmin self) (vmax self) True img = Inr n"
    and ix: "in_shape sp jx" "c < 3" and ne: "cs \<noteq> []"
    and ramp: "ramp = (\<lambda>i. comp4 (from_list L (cs ! i) (elems n (i # jx))) c)"
    and R: "\<forall>i<length cs. 0 \<le> ramp i \<and> ramp i \<le> 1"
  shows "pixel (dispatch L self (shape img) n) (jx @ [c]) = Inr (Max (ramp ` {..<length cs})) \<and>
         pixel (transform L self img None None) (jx @ [c]) =
           Inr (clip (Max (ramp ` {..<length cs}) * scale self) 0 1) \<and>
         (\<forall>i<length cs.
            (\<forall>j<length cs. j \<noteq> i \<longrightarrow> elems n (j # jx) = 0 \<and> comp4 (from_list L (cs ! j) 0) c = 0) \<longrightarrow>
            pixel (dispatch L self (shape img) n) (jx @ [c]) = Inr (ramp i))"
proof -
  let ?S = "ramp ` {..<length cs}"
  have sn: "shape n = shape img" and bok: "bounds_ok (autoscale_None (vmin self) (vmax self) img)"
    using Normalize_Inr [OF N] by simp_all
  have fin: "finite ?S" by simp
  have "0 < length cs" using ne by simp
  then have "ramp 0 \<in> ?S" by blast
  then have nonempty: "?S \<noteq> {}" by blast
  have cl: "(\<lambda>i. clip (comp4 (from_list L (cs ! i) (elems n (i # jx))) c) 0 1) ` {..<length cs} = ?S"
    using R by (auto simp add: ramp clip_id intro!: image_cong)
  have "Max ?S \<in> ?S" using fin nonempty by (rule Max_in)
  then have mpos: "0 \<le> Max ?S" using R by auto
  have m0: "Max (insert 0 ?S) = Max ?S"
    using fin nonempty mpos by (simp add: max_def)
  have d: "pixel (dispatch L self (shape img) n) (jx @ [c]) = Inr (Max ?S)"
    using indexed_dispatch_pixel [OF sel cols _ len, of n L "shape img" jx c] sn sh
    by (simp only: cl m0)
  have v: "valid_input L self img"
    using sel cols sh len bok by (auto simp add: valid_input_def ndim_def)
  have sp: "spatial_shape self img = sp"
    using sel sh by (simp add: spatial_shape_def conversions_def)
  obtain raw where D: "dispatch L self (shape img) n = Inr raw"
    using dispatch_valid [OF v sn] by blast
  have "elems raw (jx @ [c]) = Max ?S" using d D by (simp add: pixel_def)
  then have t: "pixel (transform L self img None None) (jx @ [c]) = Inr (clip (Max ?S * scale self) 0 1)"
    using transform_plain [OF v N D _ ix(2), of jx] ix(1) sp by simp
  have one: "pixel (dispatch L self (shape img) n) (jx @ [c]) = Inr (ramp i)"
    if i: "i < length cs"
      and z: "\<forall>j<length cs. j \<noteq> i \<longrightarrow> elems n (j # jx) = 0 \<and> comp4 (from_list L (cs ! j) 0) c = 0"
    for i
  proof -
    have "Max ?S = ramp i"
    proof (rule Max_eqI [OF fin])
      show "ramp i \<in> ?S" using i by simp
      fix y assume "y \<in> ?S"
      then obtain j where j: "j < length cs" "y = ramp j" by auto
      show "y \<le> ramp i"
      proof (cases "j = i")
        case True
        then show ?thesis using j by simp
      next
        case False
        then have "ramp j = 0" using z j(1) by (simp add: ramp)
        then show ?thesis using R i j by simp
      qed
    qed
    then show ?thesis using d by simp
  qed
  show ?thesis using d t one by blast
qed


theorem indexed_maximum_witness:
  "pixel (transform demo_lib ((config (Str ''indexed'') 1)\<lparr>colors := Some red_green\<rparr>) img_idx None None) [0, 1, 1]
     = Inr (128 / 255) \<and>
   pixel (transform demo_lib ((config (Str ''indexed'') 1)\<lparr>colors := Some red_green\<rparr>) img_idx None None) [0, 1, 0]
     = Inr 0"
proof -
  let ?cfg = "(config (Str ''indexed'') 1)\<lparr>colors := Some red_green\<rparr>"
  let ?n = "map_nd (\<lambda>x. (clip x 0 1 - 0) / (1 - 0)) img_idx"
  have ab: "autoscale_None (vmin ?cfg) (vmax ?cfg) img_idx = (Some 0, Some 1)"
    by (simp add: config_def img_idx_def eval_bounds)
  have N: "Normalize (vmin ?cfg) (vmax ?cfg) True img_idx = Inr ?n"
    by (rule Normalize_elems [OF ab]) simp
  have sel: "cmap ?cfg = Str ''indexed''" and cols: "colors ?cfg = Some red_green"
    by (simp_all add: config_def)
  have sh: "shape img_idx = length red_green # [1, 2]" by (simp add: img_idx_def red_green_def)
  have len: "length [1, 2 :: nat] = 2 \<or> length [1, 2 :: nat] = 3" by simp
  have ix: "in_shape [1, 2] [0, 1]" by (simp add: in_shape2)
  have ne: "red_green \<noteq> []" by (simp add: red_green_def)
  have nv: "elems ?n (0 # [0, 1]) = 0" "elems ?n (1 # [0, 1]) = 1 / 2"
    by (simp_all add: map_nd_def img_idx_def clip_def)
  have l2: "i < length red_green \<longleftrightarrow> i = 0 \<or> i = 1" for i
    by (auto simp add: red_green_def)
  have res: "pixel (transform demo_lib ?cfg img_idx None None) ([0, 1] @ [c]) =
                Inr (comp4 (from_list demo_lib (red_green ! 1) (1 / 2)) c)"
    if c: "c < 3" for c
  proof -
    define ramp where "ramp = (\<lambda>i. comp4 (from_list demo_lib (red_green ! i) (elems ?n (i # [0, 1]))) c)"
    have r0: "ramp 0 = 0"
      using c by (simp only: ramp_def nv) (auto simp add: demo_lib_def linear_ramp_def red_green_def)
    have r1: "ramp 1 = comp4 (from_list demo_lib (red_green ! 1) (1 / 2)) c"
      by (simp only: ramp_def nv)
    have r1b: "0 \<le> ramp 1 \<and> ramp 1 \<le> 1"
      unfolding r1 using c by (auto simp add: demo_lib_def linear_ramp_def red_green_def)
    have R: "\<forall>i<length red_green. 0 \<le> ramp i \<and> ramp i \<le> 1"
      using r0 r1b by (auto simp add: l2)
    have z: "\<forall>j<length red_green. j \<noteq> 1 \<longrightarrow>
               elems ?n (j # [0, 1]) = 0 \<and> comp4 (from_list demo_lib (red_green ! j) 0) c = 0"
    proof (intro allI impI)
      fix j assume "j < length red_green" "j \<noteq> 1"
      then have j: "j = 0" by (simp add: l2)
      have "comp4 (from_list demo_lib (red_green ! 0) 0) c = 0"
        using c by (auto simp add: demo_lib_def linear_ramp_def red_green_def)
      then show "elems ?n (j # [0, 1]) = 0 \<and> comp4 (from_list demo_lib (red_green ! j) 0) c = 0"
        unfolding j using nv(1) by blast
    qed
    have one: "(1::nat) < length red_green" by (simp add: red_green_def)
    from indexed_maximum [OF sel cols sh len N ix c ne ramp_def R]
    have d: "pixel (dispatch demo_lib ?cfg (shape img_idx) ?n) ([0, 1] @ [c]) = Inr (Max (ramp ` {..<length red_green}))"
      and t: "pixel (transform demo_lib ?cfg img_idx None None) ([0, 1] @ [c]) =
                Inr (clip (Max (ramp ` {..<length red_green}) * scale ?cfg) 0 1)"
      and p: "\<forall>i<length red_green.
            (\<forall>j<length red_green. j \<noteq> i \<longrightarrow> elems ?n (j # [0, 1]) = 0 \<and> comp4 (from_list demo_lib (red_green ! j) 0) c = 0) \<longrightarrow>
            pixel (dispatch demo_lib ?cfg (shape img_idx) ?n) ([0, 1] @ [c]) = Inr (ramp i)"
      by blast+
    from p one z have "pixel (dispatch demo_lib ?cfg (shape img_idx) ?n) ([0, 1] @ [c]) = Inr (ramp 1)"
      by blast
    with d have "Max (ramp ` {..<length red_green}) = ramp 1" by simp
    then show ?thesis using t r1 r1b by (simp add: config_def clip_id)
  qed
  show ?thesis
    using res [of 1] res [of 0] by (simp add: demo_lib_def linear_ramp_def red_green_def)
qed

section \<open>The palette optimizer refuses arrays of fewer than two dimensions\<close>

text \<open>
  Claim C9. For an input of fewer than two dimensions, \<open>optimize\<close> raises the invalid-input
  error whatever the distance, correlation and minimization routines and the random draw
  are, so none of them is consulted; for an input of two or more dimensions it never raises
  that error.
\<close>

theorem optimize_invalid_input:
  "(ndim mat < 2 \<longrightarrow> optimize S rand mat asCmap = Inl InvalidInput) \<and>
   (2 \<le> ndim mat \<longrightarrow> optimize S rand mat asCmap \<noteq> Inl InvalidInput)"
  by (simp add: optimize_def Let_def split: option.splits)

theorem optimize_invalid_input_witness:
  "optimize \<lparr>cosine_distances = (\<lambda>m. None), corrcoef01 = (\<lambda>x y. 0), minimize = (\<lambda>f x b. None)\<rparr>
      (\<lambda>n. replicate n 0) \<lparr>shape = [5], elems = (\<lambda>ix. 1)\<rparr> False = Inl InvalidInput \<and>
   optimize \<lparr>cosine_distances = (\<lambda>m. None), corrcoef01 = (\<lambda>x y. 0), minimize = (\<lambda>f x b. None)\<rparr>
      (\<lambda>n. replicate n 0) \<lparr>shape = [2, 3], elems = (\<lambda>ix. 1)\<rparr> False \<noteq> Inl InvalidInput"
  using optimize_invalid_input [of "\<lparr>shape = [5], elems = (\<lambda>ix. 1)\<rparr>"
      "\<lparr>cosine_distances = (\<lambda>m. None), corrcoef01 = (\<lambda>x y. 0), minimize = (\<lambda>f x b. None)\<rparr>"
      "\<lambda>n. replicate n 0" False]
    optimize_invalid_input [of "\<lparr>shape = [2, 3], elems = (\<lambda>ix. 1)\<rparr>"
      "\<lparr>cosine_distances = (\<lambda>m. None), corrcoef01 = (\<lambda>x y. 0), minimize = (\<lambda>f x b. None)\<rparr>"
      "\<lambda>n. replicate n 0" False]
  by (simp add: ndim_def)

end
